theory Spec2Isabelle
  imports Complex_Main "HOL-Library.Sublist" "HOL-Library.Multiset" "HOL-Library.Log_Nat"
begin

section \<open>Strings\<close>

text \<open>
  JavaScript strings are modelled as \<^typ>\<open>string\<close>. The three string methods the services
  use are given on the ASCII fragment: \<open>toLowerCase\<close> maps \<open>A\<close>..\<open>Z\<close> to \<open>a\<close>..\<open>z\<close> and leaves
  every other character alone, \<open>trim\<close> removes the ASCII white space at both ends, and
  \<open>includes\<close> is the contiguous-substring test.
\<close>

definition isWhiteSpace :: "char \<Rightarrow> bool" where
  "isWhiteSpace c = (c \<in> set [CHR 0x09, CHR 0x0A, CHR 0x0B, CHR 0x0C, CHR 0x0D, CHR '' ''])"

definition trim :: "string \<Rightarrow> string" where
  "trim s = rev (dropWhile isWhiteSpace (rev (dropWhile isWhiteSpace s)))"

definition toLowerChar :: "char \<Rightarrow> char" where
  "toLowerChar c =
     (case map_of (zip ''ABCDEFGHIJKLMNOPQRSTUVWXYZ'' ''abcdefghijklmnopqrstuvwxyz'') c of
        None \<Rightarrow> c
      | Some l \<Rightarrow> l)"

definition toLowerCase :: "string \<Rightarrow> string" where
  "toLowerCase s = map toLowerChar s"

definition str_includes :: "string \<Rightarrow> string \<Rightarrow> bool" where
  "str_includes s q = sublist q s"

section \<open>Data model (models/Task.ts, models/TaskList.ts)\<close>

text \<open>
  A \<open>Date\<close> is its time value, the milliseconds since the epoch; every timestamp the services
  create is such a valid instant. The records are polymorphic in the representation \<open>'d\<close> of a
  timestamp: in memory it is a \<open>date\<close>, in the JSON text of the storage file it is the ISO-8601
  string of that instant. Record fields share one name space, so the field \<open>id\<close> of the two
  interfaces is \<open>list_id\<close> and \<open>task_id\<close>, the timestamps of a list carry the prefix \<open>list_\<close>, and
  the fields of the transfer objects the prefixes \<open>new_\<close> and \<open>upd_\<close>. An optional field is an
  \<open>option\<close>, \<open>None\<close> for \<open>undefined\<close>.
\<close>

type_synonym date = int

datatype iso = Iso int

record 'd TaskList =
  list_id :: string
  name :: string
  list_createdAt :: 'd
  list_updatedAt :: 'd

record 'd Task =
  task_id :: string
  title :: string
  time :: "string option"
  completed :: bool
  listId :: string
  createdAt :: 'd
  updatedAt :: 'd

record 'd Metadata =
  version :: string
  lastUpdated :: 'd

record 'd StorageData =
  taskLists :: "'d TaskList list"
  tasks :: "'d Task list"
  metadata :: "'d Metadata"

record CreateTaskListDTO =
  new_name :: string

record UpdateTaskListDTO =
  upd_name :: "string option"


record UpdateTaskDTO =
  upd_title :: "string option"
  upd_time :: "string option"
  upd_completed :: "bool option"

datatype error = AppError string nat | Error string

section \<open>The store (utils/fileStorage.ts)\<close>

text \<open>
  The state is the three files the store touches in the data directory. A file holds either
  the JSON text of a document or text on which \<open>JSON.parse\<close> or the date conversion throws.
  The environment of one operation says which file-system calls succeed and what the clock
  reads, for every call of that operation; a failed call leaves the files as they were. The
  data directory itself is not part of the state: \<open>dataDir_ok\<close> says that it exists or can be
  created. Functions return their result, \<open>Inl\<close> for a thrown error, together with the files.
\<close>

datatype file_text = Text "iso StorageData" | Corrupt

record fs =
  storageFile :: "file_text option"
  backupFile :: "file_text option"
  tempFile :: "file_text option"

record env =
  dataDir_ok :: bool
  readFile_ok :: bool
  readBackup_ok :: bool
  copyFile_ok :: bool
  writeFile_ok :: bool
  rename_ok :: bool
  clock :: date

definition toISOString :: "date \<Rightarrow> iso" where
  "toISOString t = Iso t"

fun newDate :: "iso \<Rightarrow> date" where
  "newDate (Iso t) = t"

definition stringify :: "date StorageData \<Rightarrow> iso StorageData" where
  "stringify d =
     \<lparr> taskLists = map (\<lambda>l. \<lparr> list_id = list_id l, name = name l,
                               list_createdAt = toISOString (list_createdAt l),
                               list_updatedAt = toISOString (list_updatedAt l) \<rparr>) (taskLists d),
       tasks = map (\<lambda>t. \<lparr> task_id = task_id t, title = title t, time = time t,
                           completed = completed t, listId = listId t,
                           createdAt = toISOString (createdAt t),
                           updatedAt = toISOString (updatedAt t) \<rparr>) (tasks d),
       metadata = \<lparr> version = version (metadata d),
                    lastUpdated = toISOString (lastUpdated (metadata d)) \<rparr> \<rparr>"

definition parse :: "file_text \<Rightarrow> error + iso StorageData" where
  "parse c = (case c of Text j \<Rightarrow> Inr j | Corrupt \<Rightarrow> Inl (Error ''SyntaxError''))"

text \<open>The conversion of the date strings back to \<open>Date\<close> objects, as \<open>readData\<close> does it.\<close>

definition revive :: "iso StorageData \<Rightarrow> date StorageData" where
  "revive j =
     \<lparr> taskLists = map (\<lambda>l. \<lparr> list_id = list_id l, name = name l,
                               list_createdAt = newDate (list_createdAt l),
                               list_updatedAt = newDate (list_updatedAt l) \<rparr>) (taskLists j),
       tasks = map (\<lambda>t. \<lparr> task_id = task_id t, title = title t, time = time t,
                           completed = completed t, listId = listId t,
                           createdAt = newDate (createdAt t),
                           updatedAt = newDate (updatedAt t) \<rparr>) (tasks j),
       metadata = \<lparr> version = version (metadata j),
                    lastUpdated = newDate (lastUpdated (metadata j)) \<rparr> \<rparr>"

definition ensureDataDirectory :: "env \<Rightarrow> error + unit" where
  "ensureDataDirectory e = (if dataDir_ok e then Inr () else Inl (Error ''mkdir''))"

definition createInitialData :: "env \<Rightarrow> date StorageData" where
  "createInitialData e =
     \<lparr> taskLists = [], tasks = [],
       metadata = \<lparr> version = ''1.0.0'', lastUpdated = clock e \<rparr> \<rparr>"

definition writeFailed :: error where
  "writeFailed = Error ''Failed to save data to storage''"

definition writeData :: "env \<Rightarrow> date StorageData \<Rightarrow> fs \<Rightarrow> (error + unit) \<times> fs" where
  "writeData e data s =
     (case ensureDataDirectory e of
        Inl _ \<Rightarrow> (Inl writeFailed, s)
      | Inr _ \<Rightarrow>
          let data' = data\<lparr>metadata := (metadata data)\<lparr>lastUpdated := clock e\<rparr>\<rparr> in
          if storageFile s \<noteq> None \<and> \<not> copyFile_ok e then (Inl writeFailed, s)
          else
            let s1 = (if storageFile s \<noteq> None then s\<lparr>backupFile := storageFile s\<rparr> else s) in
            if \<not> writeFile_ok e then (Inl writeFailed, s1)
            else
              let s2 = s1\<lparr>tempFile := Some (Text (stringify data'))\<rparr> in
              if \<not> rename_ok e then (Inl writeFailed, s2)
              else (Inr (), s2\<lparr>storageFile := tempFile s2, tempFile := None\<rparr>))"

text \<open>The \<open>try\<close> block of \<open>readData\<close>; \<open>Inl\<close> is an exception thrown inside it.\<close>

definition readPrimary :: "env \<Rightarrow> fs \<Rightarrow> (error + date StorageData) \<times> fs" where
  "readPrimary e s =
     (case ensureDataDirectory e of
        Inl err \<Rightarrow> (Inl err, s)
      | Inr _ \<Rightarrow>
          (case storageFile s of
             None \<Rightarrow>
               (case writeData e (createInitialData e) s of
                  (Inl err, s1) \<Rightarrow> (Inl err, s1)
                | (Inr _, s1) \<Rightarrow> (Inr (createInitialData e), s1))
           | Some c \<Rightarrow>
               if \<not> readFile_ok e then (Inl (Error ''readFile''), s)
               else (case parse c of
                       Inl err \<Rightarrow> (Inl err, s)
                     | Inr j \<Rightarrow> (Inr (revive j), s))))"

text \<open>The \<open>catch\<close> block of \<open>readData\<close>.\<close>

definition readBackup :: "env \<Rightarrow> fs \<Rightarrow> error + date StorageData" where
  "readBackup e s =
     (case backupFile s of
        None \<Rightarrow> Inr (createInitialData e)
      | Some c \<Rightarrow>
          if \<not> readBackup_ok e then Inr (createInitialData e)
          else (case parse c of
                  Inl _ \<Rightarrow> Inr (createInitialData e)
                | Inr j \<Rightarrow> Inr (revive j)))"

definition readData :: "env \<Rightarrow> fs \<Rightarrow> (error + date StorageData) \<times> fs" where
  "readData e s =
     (case readPrimary e s of
        (Inr data, s1) \<Rightarrow> (Inr data, s1)
      | (Inl _, s1) \<Rightarrow> (readBackup e s1, s1))"

section \<open>Array helpers\<close>

text \<open>
  \<open>Array.prototype.findIndex\<close> returns \<open>-1\<close> when no element satisfies the predicate;
  \<open>splice(i, 1)\<close> removes the element at index \<open>i\<close>. \<open>Array.prototype.sort\<close> is stable, so
  with a consistent comparator its result is the one a stable insertion sort produces.
\<close>

fun findIndex :: "('a \<Rightarrow> bool) \<Rightarrow> 'a list \<Rightarrow> int" where
  "findIndex P [] = -1"
| "findIndex P (x # xs) =
     (if P x then 0 else (let i = findIndex P xs in if i = -1 then -1 else i + 1))"

definition splice1 :: "int \<Rightarrow> 'a list \<Rightarrow> 'a list" where
  "splice1 i xs = take (nat i) xs @ drop (nat i + 1) xs"

fun insert_by :: "('a \<Rightarrow> 'a \<Rightarrow> int) \<Rightarrow> 'a \<Rightarrow> 'a list \<Rightarrow> 'a list" where
  "insert_by cmp x [] = [x]"
| "insert_by cmp x (y # ys) = (if cmp x y \<le> 0 then x # y # ys else y # insert_by cmp x ys)"

definition js_sort :: "('a \<Rightarrow> 'a \<Rightarrow> int) \<Rightarrow> 'a list \<Rightarrow> 'a list" where
  "js_sort cmp xs = foldr (insert_by cmp) xs []"

text \<open>A string-valued optional argument used as a condition: \<open>undefined\<close> and \<open>""\<close> are falsy.\<close>

definition truthy :: "string option \<Rightarrow> bool" where
  "truthy v = (case v of None \<Rightarrow> False | Some x \<Rightarrow> x \<noteq> [])"

section \<open>Numbers\<close>

text \<open>
  A JavaScript number is an IEEE 754 binary64 value. It is modelled as the rational it
  denotes, and an arithmetic operation as the exact operation followed by rounding to the
  nearest binary64 value, ties to even: \<open>ilog2 x\<close> is the binary exponent of a positive \<open>x\<close>,
  the unit in the last place of \<open>x\<close> is \<open>2\<close> to the power \<open>ilog2 x - 52\<close>, and \<open>round_double x\<close> is the
  nearest multiple of that unit. Overflow and subnormal numbers are left out: the numbers of
  the statistics lie between \<open>2\<close> to the power \<open>-32\<close> and \<open>10000\<close>, or are \<open>0\<close>. Counts are integers,
  which are exact. \<open>Math.round\<close> returns the nearest integer, halves upwards.
\<close>

definition ilog2 :: "rat \<Rightarrow> int" where
  "ilog2 x =
     (if 1 \<le> x then int (floorlog 2 (nat \<lfloor>x\<rfloor>)) - 1
      else - int (floorlog 2 (nat (\<lceil>1 / x\<rceil> - 1))))"

definition round_even :: "rat \<Rightarrow> int" where
  "round_even y =
     (let f = \<lfloor>y\<rfloor>; d = y - of_int f in
      if d < 1 / 2 then f else if 1 / 2 < d then f + 1 else if even f then f else f + 1)"

definition round_double :: "rat \<Rightarrow> rat" where
  "round_double x =
     (if x = 0 then 0
      else let u = 2 powi (ilog2 \<bar>x\<bar> - 52) in sgn x * of_int (round_even (\<bar>x\<bar> / u)) * u)"

definition js_div :: "rat \<Rightarrow> rat \<Rightarrow> rat" where
  "js_div x y = round_double (x / y)"

definition js_mul :: "rat \<Rightarrow> rat \<Rightarrow> rat" where
  "js_mul x y = round_double (x * y)"

definition Math_round :: "rat \<Rightarrow> int" where
  "Math_round x = \<lfloor>x + 1 / 2\<rfloor>"

record Stats =
  totalTasks :: int
  completedTasks :: int
  pendingTasks :: int
  completionRate :: rat

section \<open>List service (services/listService.ts)\<close>


definition getTaskListById :: "env \<Rightarrow> string \<Rightarrow> fs \<Rightarrow> (error + date TaskList option) \<times> fs" where
  "getTaskListById e i s =
     (case readData e s of
        (Inl _, s1) \<Rightarrow> (Inl (AppError ''Failed to retrieve task list'' 500), s1)
      | (Inr data, s1) \<Rightarrow> (Inr (find (\<lambda>list. list_id list = i) (taskLists data)), s1))"

definition createTaskList ::
  "env \<Rightarrow> string \<Rightarrow> CreateTaskListDTO \<Rightarrow> fs \<Rightarrow> (error + date TaskList) \<times> fs" where
  "createTaskList e uuid createData s =
     (case readData e s of
        (Inl _, s1) \<Rightarrow> (Inl (AppError ''Failed to create task list'' 500), s1)
      | (Inr data, s1) \<Rightarrow>
          if find (\<lambda>list. toLowerCase (name list) = toLowerCase (new_name createData))
               (taskLists data) \<noteq> None
          then (Inl (AppError ''A task list with this name already exists'' 409), s1)
          else
            let newTaskList = \<lparr> list_id = uuid, name = trim (new_name createData),
                                list_createdAt = clock e, list_updatedAt = clock e \<rparr> in
            (case writeData e (data\<lparr>taskLists := taskLists data @ [newTaskList]\<rparr>) s1 of
               (Inl _, s2) \<Rightarrow> (Inl (AppError ''Failed to create task list'' 500), s2)
             | (Inr _, s2) \<Rightarrow> (Inr newTaskList, s2)))"

definition updateTaskList ::
  "env \<Rightarrow> string \<Rightarrow> UpdateTaskListDTO \<Rightarrow> fs \<Rightarrow> (error + date TaskList option) \<times> fs" where
  "updateTaskList e i updateData s =
     (case readData e s of
        (Inl _, s1) \<Rightarrow> (Inl (AppError ''Failed to update task list'' 500), s1)
      | (Inr data, s1) \<Rightarrow>
          let taskListIndex = findIndex (\<lambda>list. list_id list = i) (taskLists data) in
          if taskListIndex = -1 then (Inr None, s1)
          else if truthy (upd_name updateData) \<and>
                  find (\<lambda>list. list_id list \<noteq> i \<and>
                          toLowerCase (name list) = toLowerCase (the (upd_name updateData)))
                    (taskLists data) \<noteq> None
          then (Inl (AppError ''A task list with this name already exists'' 409), s1)
          else
            let currentList = taskLists data ! nat taskListIndex;
                updatedTaskList =
                  (if truthy (upd_name updateData)
                   then currentList\<lparr>name := trim (the (upd_name updateData))\<rparr>
                   else currentList)\<lparr>list_updatedAt := clock e\<rparr> in
            (case writeData e
                    (data\<lparr>taskLists := (taskLists data)[nat taskListIndex := updatedTaskList]\<rparr>)
                    s1 of
               (Inl _, s2) \<Rightarrow> (Inl (AppError ''Failed to update task list'' 500), s2)
             | (Inr _, s2) \<Rightarrow> (Inr (Some updatedTaskList), s2)))"

definition deleteTaskList :: "env \<Rightarrow> string \<Rightarrow> fs \<Rightarrow> (error + bool) \<times> fs" where
  "deleteTaskList e i s =
     (case readData e s of
        (Inl _, s1) \<Rightarrow> (Inl (AppError ''Failed to delete task list'' 500), s1)
      | (Inr data, s1) \<Rightarrow>
          let taskListIndex = findIndex (\<lambda>list. list_id list = i) (taskLists data) in
          if taskListIndex = -1 then (Inr False, s1)
          else
            (case writeData e
                    (data\<lparr>taskLists := splice1 taskListIndex (taskLists data),
                          tasks := filter (\<lambda>task. listId task \<noteq> i) (tasks data)\<rparr>)
                    s1 of
               (Inl _, s2) \<Rightarrow> (Inl (AppError ''Failed to delete task list'' 500), s2)
             | (Inr _, s2) \<Rightarrow> (Inr True, s2)))"

definition taskListExists :: "env \<Rightarrow> string \<Rightarrow> fs \<Rightarrow> bool \<times> fs" where
  "taskListExists e i s =
     (case getTaskListById e i s of
        (Inl _, s1) \<Rightarrow> (False, s1)
      | (Inr taskList, s1) \<Rightarrow> (taskList \<noteq> None, s1))"

definition getTaskListStats :: "env \<Rightarrow> string \<Rightarrow> fs \<Rightarrow> (error + Stats option) \<times> fs" where
  "getTaskListStats e i s =
     (case readData e s of
        (Inl _, s1) \<Rightarrow> (Inl (AppError ''Failed to get task list statistics'' 500), s1)
      | (Inr data, s1) \<Rightarrow>
          if find (\<lambda>list. list_id list = i) (taskLists data) = None then (Inr None, s1)
          else
            let listTasks = filter (\<lambda>task. listId task = i) (tasks data);
                completedTasks = int (length (filter completed listTasks));
                totalTasks = int (length listTasks);
                pendingTasks = totalTasks - completedTasks;
                completionRate =
                  (if totalTasks > 0
                   then js_mul (js_div (of_int completedTasks) (of_int totalTasks)) 100
                   else 0) in
            (Inr (Some \<lparr> totalTasks = totalTasks, completedTasks = completedTasks,
                          pendingTasks = pendingTasks,
                          completionRate =
                            js_div (of_int (Math_round (js_mul completionRate 100))) 100 \<rparr>),
             s1))"

section \<open>Task service (services/taskService.ts)\<close>





definition updateTask ::
  "env \<Rightarrow> string \<Rightarrow> UpdateTaskDTO \<Rightarrow> fs \<Rightarrow> (error + date Task option) \<times> fs" where
  "updateTask e i updateData s =
     (case readData e s of
        (Inl _, s1) \<Rightarrow> (Inl (AppError ''Failed to update task'' 500), s1)
      | (Inr data, s1) \<Rightarrow>
          let taskIndex = findIndex (\<lambda>task. task_id task = i) (tasks data) in
          if taskIndex = -1 then (Inr None, s1)
          else
            let currentTask = tasks data ! nat taskIndex;
                t1 = (case upd_title updateData of
                        None \<Rightarrow> currentTask
                      | Some x \<Rightarrow> currentTask\<lparr>title := trim x\<rparr>);
                t2 = (case upd_time updateData of
                        None \<Rightarrow> t1
                      | Some x \<Rightarrow> t1\<lparr>time := Some (trim x)\<rparr>);
                t3 = (case upd_completed updateData of
                        None \<Rightarrow> t2
                      | Some x \<Rightarrow> t2\<lparr>completed := x\<rparr>);
                updatedTask = t3\<lparr>updatedAt := clock e\<rparr> in
            (case writeData e (data\<lparr>tasks := (tasks data)[nat taskIndex := updatedTask]\<rparr>) s1 of
               (Inl _, s2) \<Rightarrow> (Inl (AppError ''Failed to update task'' 500), s2)
             | (Inr _, s2) \<Rightarrow> (Inr (Some updatedTask), s2)))"


definition deleteTask :: "env \<Rightarrow> string \<Rightarrow> fs \<Rightarrow> (error + bool) \<times> fs" where
  "deleteTask e i s =
     (case readData e s of
        (Inl _, s1) \<Rightarrow> (Inl (AppError ''Failed to delete task'' 500), s1)
      | (Inr data, s1) \<Rightarrow>
          let taskIndex = findIndex (\<lambda>task. task_id task = i) (tasks data) in
          if taskIndex = -1 then (Inr False, s1)
          else
            (case writeData e (data\<lparr>tasks := splice1 taskIndex (tasks data)\<rparr>) s1 of
               (Inl _, s2) \<Rightarrow> (Inl (AppError ''Failed to delete task'' 500), s2)
             | (Inr _, s2) \<Rightarrow> (Inr True, s2)))"


definition searchCompare :: "string \<Rightarrow> date Task \<Rightarrow> date Task \<Rightarrow> int" where
  "searchCompare searchQuery a b =
     (let aTitle = toLowerCase (title a); bTitle = toLowerCase (title b) in
      if aTitle = searchQuery \<and> bTitle \<noteq> searchQuery then -1
      else if bTitle = searchQuery \<and> aTitle \<noteq> searchQuery then 1
      else createdAt b - createdAt a)"

text \<open>The optional scope shared by \<open>searchTasks\<close> and \<open>getTaskStats\<close>: \<open>if (listId) { ... }\<close>.\<close>

definition scopeTasks ::
  "env \<Rightarrow> string option \<Rightarrow> date StorageData \<Rightarrow> fs \<Rightarrow> (error + date Task list) \<times> fs" where
  "scopeTasks e lid data s =
     (if truthy lid then
        (case taskListExists e (the lid) s of
           (False, s1) \<Rightarrow> (Inl (AppError ''Task list not found'' 404), s1)
         | (True, s1) \<Rightarrow> (Inr (filter (\<lambda>task. listId task = the lid) (tasks data)), s1))
      else (Inr (tasks data), s))"

definition searchTasks ::
  "env \<Rightarrow> string \<Rightarrow> string option \<Rightarrow> fs \<Rightarrow> (error + date Task list) \<times> fs" where
  "searchTasks e query lid s =
     (case readData e s of
        (Inl _, s1) \<Rightarrow> (Inl (AppError ''Failed to search tasks'' 500), s1)
      | (Inr data, s1) \<Rightarrow>
          (case scopeTasks e lid data s1 of
             (Inl err, s2) \<Rightarrow> (Inl err, s2)
           | (Inr scoped, s2) \<Rightarrow>
               let searchQuery = trim (toLowerCase query);
                   matchingTasks =
                     filter (\<lambda>task. str_includes (toLowerCase (title task)) searchQuery) scoped in
               (Inr (js_sort (searchCompare searchQuery) matchingTasks), s2)))"

definition getTaskStats :: "env \<Rightarrow> string option \<Rightarrow> fs \<Rightarrow> (error + Stats) \<times> fs" where
  "getTaskStats e lid s =
     (case readData e s of
        (Inl _, s1) \<Rightarrow> (Inl (AppError ''Failed to get task statistics'' 500), s1)
      | (Inr data, s1) \<Rightarrow>
          (case scopeTasks e lid data s1 of
             (Inl err, s2) \<Rightarrow> (Inl err, s2)
           | (Inr scoped, s2) \<Rightarrow>
               let totalTasks = int (length scoped);
                   completedTasks = int (length (filter completed scoped));
                   pendingTasks = totalTasks - completedTasks;
                   completionRate =
                     (if totalTasks > 0
                      then js_mul (js_div (of_int completedTasks) (of_int totalTasks)) 100
                      else 0) in
               (Inr \<lparr> totalTasks = totalTasks, completedTasks = completedTasks,
                      pendingTasks = pendingTasks,
                      completionRate =
                        js_div (of_int (Math_round (js_mul completionRate 100))) 100 \<rparr>,
                s2)))"

section \<open>Vocabulary of the properties\<close>

text \<open>\<open>write_ok e s\<close>: every file-system call that \<open>writeData\<close> makes in state \<open>s\<close> succeeds.\<close>

definition write_ok :: "env \<Rightarrow> fs \<Rightarrow> bool" where
  "write_ok e s \<longleftrightarrow>
     dataDir_ok e \<and> (storageFile s \<noteq> None \<longrightarrow> copyFile_ok e) \<and> writeFile_ok e \<and> rename_ok e"

text \<open>\<open>saved e d\<close>: the text that a successful \<open>writeData e d\<close> leaves in the storage file.\<close>

definition saved :: "env \<Rightarrow> date StorageData \<Rightarrow> file_text" where
  "saved e d = Text (stringify (d\<lparr>metadata := (metadata d)\<lparr>lastUpdated := clock e\<rparr>\<rparr>))"

text \<open>
  \<open>primary_fails e s\<close>: the \<open>try\<close> block of \<open>readData\<close> throws. Either the data directory is
  unavailable, or the storage file is absent and the initial document cannot be written, or
  the storage file is there and cannot be read or parsed.
\<close>

definition primary_fails :: "env \<Rightarrow> fs \<Rightarrow> bool" where
  "primary_fails e s \<longleftrightarrow>
     \<not> dataDir_ok e \<or>
     (case storageFile s of
        None \<Rightarrow> \<not> write_ok e s
      | Some c \<Rightarrow> \<not> readFile_ok e \<or> c = Corrupt)"

text \<open>
  The completion rate that \<open>getTaskListStats\<close> and \<open>getTaskStats\<close> both compute from the two
  counts, and the statistics record they both build from the tasks in scope.
\<close>

definition rate_of :: "int \<Rightarrow> int \<Rightarrow> rat" where
  "rate_of c t =
     (let r = (if t > 0 then js_mul (js_div (of_int c) (of_int t)) 100 else 0)
      in js_div (of_int (Math_round (js_mul r 100))) 100)"

definition stats_of :: "date Task list \<Rightarrow> Stats" where
  "stats_of ts =
     \<lparr> totalTasks = int (length ts),
       completedTasks = int (length (filter completed ts)),
       pendingTasks = int (length ts) - int (length (filter completed ts)),
       completionRate = rate_of (int (length (filter completed ts))) (int (length ts)) \<rparr>"

text \<open>
  The order of search results: \<open>search_order q a b\<close> says that \<open>a\<close> may stand before \<open>b\<close>, either
  because only \<open>a\<close> has the title \<open>q\<close> (compared in lower case), or because they agree on that and
  \<open>a\<close> was not created before \<open>b\<close>.
\<close>

definition exact_match :: "string \<Rightarrow> date Task \<Rightarrow> bool" where
  "exact_match q t \<longleftrightarrow> toLowerCase (title t) = q"

definition search_order :: "string \<Rightarrow> date Task \<Rightarrow> date Task \<Rightarrow> bool" where
  "search_order q a b \<longleftrightarrow>
     (exact_match q a \<and> \<not> exact_match q b) \<or>
     (exact_match q a = exact_match q b \<and> createdAt b \<le> createdAt a)"

text \<open>
  Referential integrity of a document, and of the documents the files hold:
  \<open>all_stored P s\<close> says that every file of \<open>s\<close> that holds a document holds one satisfying \<open>P\<close>.
\<close>

definition ref_integrity :: "date StorageData \<Rightarrow> bool" where
  "ref_integrity d \<longleftrightarrow>
     (\<forall>task\<in>set (tasks d). \<exists>list\<in>set (taskLists d). list_id list = listId task)"

definition stored :: "(date StorageData \<Rightarrow> bool) \<Rightarrow> file_text option \<Rightarrow> bool" where
  "stored P f = (case f of Some (Text j) \<Rightarrow> P (revive j) | _ \<Rightarrow> True)"


text \<open>The empty data directory.\<close>

definition no_files :: fs where
  "no_files = \<lparr> storageFile = None, backupFile = None, tempFile = None \<rparr>"






section \<open>Example inputs\<close>

text \<open>An environment in which every file-system call succeeds, at clock \<open>t\<close>.\<close>

definition env_ok :: "date \<Rightarrow> env" where
  "env_ok t = \<lparr> dataDir_ok = True, readFile_ok = True, readBackup_ok = True,
               copyFile_ok = True, writeFile_ok = True, rename_ok = True, clock = t \<rparr>"


text \<open>An environment in which writing the temporary file fails and every other call succeeds.\<close>

definition env_write_fails :: "date \<Rightarrow> env" where
  "env_write_fails t = (env_ok t)\<lparr>writeFile_ok := False\<rparr>"



text \<open>Documents, and data directories whose storage file holds them.\<close>

definition workDoc :: "date StorageData" where
  "workDoc =
     \<lparr> taskLists = [\<lparr> list_id = ''L1'', name = ''Work'',
                       list_createdAt = 1000, list_updatedAt = 1000 \<rparr>],
       tasks = [\<lparr> task_id = ''T1'', title = ''Buy milk'', time = None, completed = False,
                   listId = ''L1'', createdAt = 2000, updatedAt = 2000 \<rparr>],
       metadata = \<lparr> version = ''1.0.0'', lastUpdated = 2000 \<rparr> \<rparr>"

definition work_files :: fs where
  "work_files = \<lparr> storageFile = Some (Text (stringify workDoc)), backupFile = None, tempFile = None \<rparr>"

definition backup_only :: fs where
  "backup_only =
     \<lparr> storageFile = None, backupFile = Some (Text (stringify workDoc)), tempFile = None \<rparr>"

definition twoListsDoc :: "date StorageData" where
  "twoListsDoc =
     \<lparr> taskLists = [\<lparr> list_id = ''L1'', name = ''Work'',
                       list_createdAt = 1000, list_updatedAt = 1000 \<rparr>,
                    \<lparr> list_id = ''L2'', name = ''Home'',
                       list_createdAt = 3000, list_updatedAt = 3000 \<rparr>],
       tasks = [],
       metadata = \<lparr> version = ''1.0.0'', lastUpdated = 3000 \<rparr> \<rparr>"

definition two_lists_files :: fs where
  "two_lists_files =
     \<lparr> storageFile = Some (Text (stringify twoListsDoc)), backupFile = None, tempFile = None \<rparr>"

text \<open>Two lists, with two tasks in the first and, between them, one in the second.\<close>

definition officeDoc :: "date StorageData" where
  "officeDoc =
     \<lparr> taskLists = [\<lparr> list_id = ''L1'', name = ''Work'',
                       list_createdAt = 1000, list_updatedAt = 1000 \<rparr>,
                    \<lparr> list_id = ''L2'', name = ''Home'',
                       list_createdAt = 3000, list_updatedAt = 3000 \<rparr>],
       tasks = [\<lparr> task_id = ''T1'', title = ''Write report'', time = None, completed = False,
                   listId = ''L1'', createdAt = 4000, updatedAt = 4000 \<rparr>,
                \<lparr> task_id = ''T2'', title = ''Water plants'', time = None, completed = True,
                   listId = ''L2'', createdAt = 5000, updatedAt = 5500 \<rparr>,
                \<lparr> task_id = ''T3'', title = ''Send invoice'', time = None, completed = False,
                   listId = ''L1'', createdAt = 6000, updatedAt = 6000 \<rparr>],
       metadata = \<lparr> version = ''1.0.0'', lastUpdated = 6000 \<rparr> \<rparr>"

definition office_files :: fs where
  "office_files =
     \<lparr> storageFile = Some (Text (stringify officeDoc)), backupFile = None, tempFile = None \<rparr>"

definition mkTask :: "string \<Rightarrow> string \<Rightarrow> bool \<Rightarrow> date \<Rightarrow> date Task" where
  "mkTask i ttl done created =
     \<lparr> task_id = i, title = ttl, time = None, completed = done, listId = ''L1'',
       createdAt = created, updatedAt = created \<rparr>"

definition groceriesDoc :: "date StorageData" where
  "groceriesDoc =
     \<lparr> taskLists = [\<lparr> list_id = ''L1'', name = ''Groceries'',
                       list_createdAt = 1000, list_updatedAt = 1000 \<rparr>],
       tasks = [mkTask ''T1'' ''Milk'' True 2000, mkTask ''T2'' ''Buy milk'' False 3000,
                mkTask ''T3'' ''Eggs'' False 4000, mkTask ''T4'' ''Almond MILK 1l'' False 5000],
       metadata = \<lparr> version = ''1.0.0'', lastUpdated = 5000 \<rparr> \<rparr>"

definition groceries_files :: fs where
  "groceries_files =
     \<lparr> storageFile = Some (Text (stringify groceriesDoc)), backupFile = None, tempFile = None \<rparr>"

definition milkDoc :: "date StorageData" where
  "milkDoc =
     \<lparr> taskLists = [\<lparr> list_id = ''L1'', name = ''Groceries'',
                       list_createdAt = 1000, list_updatedAt = 1000 \<rparr>],
       tasks = [mkTask ''T2'' ''Buy milk'' False 3000, mkTask ''T1'' ''Milk'' False 2000],
       metadata = \<lparr> version = ''1.0.0'', lastUpdated = 3000 \<rparr> \<rparr>"

definition milk_files :: fs where
  "milk_files =
     \<lparr> storageFile = Some (Text (stringify milkDoc)), backupFile = None, tempFile = None \<rparr>"

section \<open>Properties of the store\<close>

lemmas str_eval = trim_def toLowerCase_def toLowerChar_def isWhiteSpace_def str_includes_def
  sublist_Cons_right

lemma revive_stringify: "revive (stringify d) = d"
proof -
  have l: "(\<lambda>x::date TaskList. \<lparr>list_id = list_id x, name = name x,
                    list_createdAt = list_createdAt x,
                    list_updatedAt = list_updatedAt x\<rparr>) = (\<lambda>x. x)"
    by (rule ext) simp
  have t: "(\<lambda>x::date Task. \<lparr>task_id = task_id x, title = title x, time = time x,
                      completed = completed x, listId = listId x,
                      createdAt = createdAt x, updatedAt = updatedAt x\<rparr>) = (\<lambda>x. x)"
    by (rule ext) simp
  show ?thesis
    by (simp add: revive_def stringify_def toISOString_def comp_def l t)
qed

lemma readBackup_total: "\<exists>d. readBackup e s = Inr d"
  by (simp add: readBackup_def split: option.splits sum.splits)

lemma readData_total: "\<exists>d s'. readData e s = (Inr d, s')"
  using readBackup_total [of e]
  by (auto simp add: readData_def split: prod.splits sum.splits)

lemma writeData_ok:
  "write_ok e s \<Longrightarrow> writeData e d s =
     (Inr (), s\<lparr>backupFile := (if storageFile s \<noteq> None then storageFile s else backupFile s),
               storageFile := Some (saved e d), tempFile := None\<rparr>)"
  by (auto simp add: writeData_def write_ok_def ensureDataDirectory_def Let_def saved_def)

lemma writeData_fail:
  "\<not> write_ok e s \<Longrightarrow> fst (writeData e d s) = Inl writeFailed"
  "\<not> write_ok e s \<Longrightarrow> storageFile (snd (writeData e d s)) = storageFile s"
  "storageFile s = None \<Longrightarrow> \<not> write_ok e s \<Longrightarrow>
     backupFile (snd (writeData e d s)) = backupFile s"
  by (auto simp add: writeData_def write_ok_def ensureDataDirectory_def Let_def)

lemma createInitialData_lastUpdated:
  "(createInitialData e)\<lparr>metadata := (metadata (createInitialData e))\<lparr>lastUpdated := clock e\<rparr>\<rparr>
     = createInitialData e"
  by (simp add: createInitialData_def)

lemma readPrimary_absent_ok:
  "storageFile s = None \<Longrightarrow> write_ok e s \<Longrightarrow>
   readPrimary e s = (Inr (createInitialData e),
      s\<lparr>storageFile := Some (Text (stringify (createInitialData e))), tempFile := None\<rparr>)"
  by (simp add: readPrimary_def writeData_ok createInitialData_lastUpdated write_ok_def
        ensureDataDirectory_def saved_def)

lemma readPrimary_present_ok:
  "storageFile s = Some (Text j) \<Longrightarrow> dataDir_ok e \<Longrightarrow> readFile_ok e \<Longrightarrow>
   readPrimary e s = (Inr (revive j), s)"
  by (simp add: readPrimary_def ensureDataDirectory_def parse_def)

lemma readPrimary_fails:
  assumes "primary_fails e s"
  shows "\<exists>err s1. readPrimary e s = (Inl err, s1) \<and> backupFile s1 = backupFile s
           \<and> storageFile s1 = storageFile s"
proof (cases "dataDir_ok e")
  case False
  then show ?thesis by (simp add: readPrimary_def ensureDataDirectory_def)
next
  case True
  show ?thesis
  proof (cases "storageFile s")
    case None
    with assms True have nw: "\<not> write_ok e s" by (simp add: primary_fails_def)
    obtain r s1 where w: "writeData e (createInitialData e) s = (r, s1)" by fastforce
    from writeData_fail(1)[OF nw, of "createInitialData e"] w have "r = Inl writeFailed" by simp
    moreover from writeData_fail(3)[OF None nw, of "createInitialData e"] w
    have "backupFile s1 = backupFile s" by simp
    moreover from writeData_fail(2)[OF nw, of "createInitialData e"] w
    have "storageFile s1 = storageFile s" by simp
    ultimately show ?thesis using True None w
      by (simp add: readPrimary_def ensureDataDirectory_def)
  next
    case (Some c)
    with assms True have "\<not> readFile_ok e \<or> c = Corrupt" by (simp add: primary_fails_def)
    then show ?thesis using True Some
      by (auto simp add: readPrimary_def ensureDataDirectory_def parse_def)
  qed
qed

lemma readData_fallback:
  assumes "primary_fails e s"
  shows "\<exists>s1. readData e s = (readBackup e s, s1) \<and> storageFile s1 = storageFile s"
proof -
  from readPrimary_fails[OF assms] obtain err s1 where
    p: "readPrimary e s = (Inl err, s1)" and b: "backupFile s1 = backupFile s"
    and st: "storageFile s1 = storageFile s" by blast
  have "readBackup e s1 = readBackup e s" using b by (simp add: readBackup_def)
  then show ?thesis using p st by (simp add: readData_def)
qed

text \<open>
  C6 (as amended). \<open>readData\<close> never raises: it always returns a document. When the storage
  file is absent and the initial write succeeds, it persists and returns the empty document
  (no lists, no tasks, version 1.0.0). Whenever its \<open>try\<close> block throws (which includes a
  storage file that cannot be read or parsed, and an absent storage file whose initial write
  fails), it returns the parsed backup file if that can be read and parsed, and a fresh empty
  document otherwise.
\<close>

theorem readData_never_raises:
  "(\<exists>d. fst (readData e s) = Inr d) \<and>
   taskLists (createInitialData e) = [] \<and> tasks (createInitialData e) = [] \<and>
   version (metadata (createInitialData e)) = ''1.0.0'' \<and>
   (storageFile s = None \<and> write_ok e s \<longrightarrow>
      fst (readData e s) = Inr (createInitialData e) \<and>
      storageFile (snd (readData e s)) = Some (Text (stringify (createInitialData e)))) \<and>
   (primary_fails e s \<and> backupFile s = Some (Text j) \<and> readBackup_ok e \<longrightarrow>
      fst (readData e s) = Inr (revive j)) \<and>
   (primary_fails e s \<and>
      (backupFile s = None \<or> backupFile s = Some Corrupt \<or> \<not> readBackup_ok e) \<longrightarrow>
      fst (readData e s) = Inr (createInitialData e))"
proof -
  have 1: "\<exists>d. fst (readData e s) = Inr d"
    using readData_total[of e s] by auto
  have 2: "fst (readData e s) = Inr (createInitialData e) \<and>
      storageFile (snd (readData e s)) = Some (Text (stringify (createInitialData e)))"
    if "storageFile s = None" "write_ok e s"
    using that by (simp add: readData_def readPrimary_absent_ok)
  have 3: "fst (readData e s) = Inr (revive j)"
    if "primary_fails e s" "backupFile s = Some (Text j)" "readBackup_ok e"
    using readData_fallback[OF that(1)] that(2,3)
    by (auto simp add: readBackup_def parse_def)
  have 4: "fst (readData e s) = Inr (createInitialData e)"
    if "primary_fails e s"
      "backupFile s = None \<or> backupFile s = Some Corrupt \<or> \<not> readBackup_ok e"
    using readData_fallback[OF that(1)] that(2)
    by (auto simp add: readBackup_def parse_def split: option.splits)
  show ?thesis using 1 2 3 4 by (simp add: createInitialData_def)
qed

theorem readData_never_raises_witness:
  "(storageFile no_files = None \<and> write_ok (env_ok 5000) no_files \<and>
      fst (readData (env_ok 5000) no_files) = Inr (createInitialData (env_ok 5000))) \<and>
   (primary_fails ((env_ok 5000)\<lparr>readFile_ok := False\<rparr>)
        (backup_only\<lparr>storageFile := Some Corrupt\<rparr>) \<and>
      backupFile (backup_only\<lparr>storageFile := Some Corrupt\<rparr>) = Some (Text (stringify workDoc)) \<and>
      readBackup_ok ((env_ok 5000)\<lparr>readFile_ok := False\<rparr>) \<and>
      fst (readData ((env_ok 5000)\<lparr>readFile_ok := False\<rparr>)
             (backup_only\<lparr>storageFile := Some Corrupt\<rparr>)) = Inr workDoc) \<and>
   (primary_fails (env_ok 5000) (no_files\<lparr>storageFile := Some Corrupt\<rparr>) \<and>
      backupFile (no_files\<lparr>storageFile := Some Corrupt\<rparr>) = None \<and>
      fst (readData (env_ok 5000) (no_files\<lparr>storageFile := Some Corrupt\<rparr>))
        = Inr (createInitialData (env_ok 5000)))"
proof -
  have a: "storageFile no_files = None \<and> write_ok (env_ok 5000) no_files"
    by (simp add: no_files_def write_ok_def env_ok_def)
  have b: "primary_fails ((env_ok 5000)\<lparr>readFile_ok := False\<rparr>)
             (backup_only\<lparr>storageFile := Some Corrupt\<rparr>) \<and>
           backupFile (backup_only\<lparr>storageFile := Some Corrupt\<rparr>)
             = Some (Text (stringify workDoc)) \<and>
           readBackup_ok ((env_ok 5000)\<lparr>readFile_ok := False\<rparr>)"
    by (simp add: primary_fails_def backup_only_def env_ok_def)
  have c: "primary_fails (env_ok 5000) (no_files\<lparr>storageFile := Some Corrupt\<rparr>) \<and>
           backupFile (no_files\<lparr>storageFile := Some Corrupt\<rparr>) = None"
    by (simp add: primary_fails_def no_files_def env_ok_def)
  show ?thesis
    using a b c
      readData_never_raises[of "env_ok 5000" no_files "stringify workDoc"]
      readData_never_raises[of "(env_ok 5000)\<lparr>readFile_ok := False\<rparr>"
        "backup_only\<lparr>storageFile := Some Corrupt\<rparr>" "stringify workDoc"]
      readData_never_raises[of "env_ok 5000" "no_files\<lparr>storageFile := Some Corrupt\<rparr>" "stringify workDoc"]
    by (simp add: revive_stringify)
qed

text \<open>
  The claim as stated says that an absent storage file always yields a persisted empty
  document. With the storage file absent, a backup present and the write of the initial
  document failing, \<open>readData\<close> returns the backup's document and persists nothing.
\<close>

theorem readData_absent_counterexample:
  "storageFile backup_only = None \<and>
   fst (readData ((env_ok 5000)\<lparr>writeFile_ok := False\<rparr>) backup_only) = Inr workDoc \<and>
   taskLists workDoc \<noteq> [] \<and>
   storageFile (snd (readData ((env_ok 5000)\<lparr>writeFile_ok := False\<rparr>) backup_only)) = None"
  by (simp add: readData_def readPrimary_def readBackup_def writeData_def ensureDataDirectory_def
        env_ok_def backup_only_def parse_def revive_stringify workDoc_def)

text \<open>
  C7. Round trip through the store: after \<open>writeData\<close> has written \<open>D\<close>, a \<open>readData\<close> that
  can read the storage file returns a document with the task lists and tasks of \<open>D\<close>, every
  field and timestamp equal.
\<close>

theorem store_round_trip:
  assumes "writeData e D s = (Inr (), s')" and "dataDir_ok e'" and "readFile_ok e'"
  shows "\<exists>D'. readData e' s' = (Inr D', s') \<and> taskLists D' = taskLists D \<and> tasks D' = tasks D
           \<and> version (metadata D') = version (metadata D)"
proof -
  have ok: "write_ok e s"
    using assms(1) writeData_fail(1)[of e s D] by (cases "write_ok e s") auto
  from writeData_ok[OF ok, of D] assms(1)
  have "storageFile s' =
    Some (Text (stringify (D\<lparr>metadata := (metadata D)\<lparr>lastUpdated := clock e\<rparr>\<rparr>)))"
    by (auto simp add: saved_def)
  from readPrimary_present_ok[OF this assms(2,3)]
  have "readData e' s' = (Inr (D\<lparr>metadata := (metadata D)\<lparr>lastUpdated := clock e\<rparr>\<rparr>), s')"
    by (simp add: readData_def revive_stringify)
  then show ?thesis by simp
qed

theorem store_round_trip_witness:
  "writeData (env_ok 3000) workDoc no_files
     = (Inr (), no_files\<lparr>storageFile :=
          Some (Text (stringify (workDoc\<lparr>metadata := (metadata workDoc)\<lparr>lastUpdated := 3000\<rparr>\<rparr>)))\<rparr>) \<and>
   dataDir_ok (env_ok 4000) \<and> readFile_ok (env_ok 4000) \<and>
   taskLists (projr (fst (readData (env_ok 4000)
       (no_files\<lparr>storageFile :=
          Some (Text (stringify (workDoc\<lparr>metadata := (metadata workDoc)\<lparr>lastUpdated := 3000\<rparr>\<rparr>)))\<rparr>))))
     = taskLists workDoc"
proof -
  have w: "writeData (env_ok 3000) workDoc no_files
     = (Inr (), no_files\<lparr>storageFile :=
          Some (Text (stringify (workDoc\<lparr>metadata := (metadata workDoc)\<lparr>lastUpdated := 3000\<rparr>\<rparr>)))\<rparr>)"
    by (simp add: writeData_def ensureDataDirectory_def env_ok_def no_files_def)
  have r: "dataDir_ok (env_ok 4000)" "readFile_ok (env_ok 4000)"
    by (simp_all add: env_ok_def)
  from store_round_trip[OF w r] w r show ?thesis by auto
qed

section \<open>Properties of the array helpers\<close>

lemma findIndex_ge: "-1 \<le> findIndex P xs"
  by (induction xs) (auto simp: Let_def)

lemma findIndex_minus1: "findIndex P xs = -1 \<longleftrightarrow> (\<forall>x\<in>set xs. \<not> P x)"
proof (induction xs)
  case Nil
  then show ?case by simp
next
  case (Cons x xs)
  with findIndex_ge[of P xs] show ?case by (auto simp: Let_def)
qed

lemma findIndex_found:
  "findIndex P xs \<noteq> -1 \<Longrightarrow>
     0 \<le> findIndex P xs \<and> nat (findIndex P xs) < length xs \<and> P (xs ! nat (findIndex P xs))"
proof (induction xs)
  case Nil
  then show ?case by simp
next
  case (Cons x xs)
  show ?case
  proof (cases "P x")
    case True
    then show ?thesis by simp
  next
    case False
    with Cons.prems have ne: "findIndex P xs \<noteq> -1" by (auto simp: Let_def)
    from Cons.IH[OF ne] False ne show ?thesis
      by (auto simp: Let_def nat_add_distrib)
  qed
qed

lemma findIndex_first:
  "findIndex P xs \<noteq> -1 \<Longrightarrow> j < nat (findIndex P xs) \<Longrightarrow> \<not> P (xs ! j)"
proof (induction xs arbitrary: j)
  case Nil
  then show ?case by simp
next
  case (Cons x xs)
  show ?case
  proof (cases "P x")
    case True
    with Cons.prems show ?thesis by simp
  next
    case False
    with Cons.prems have ne: "findIndex P xs \<noteq> -1" by (auto simp: Let_def)
    from findIndex_found[OF ne] have ge: "0 \<le> findIndex P xs" by simp
    show ?thesis
    proof (cases j)
      case 0
      with False show ?thesis by simp
    next
      case (Suc j')
      with Cons.prems False ne ge have "j' < nat (findIndex P xs)"
        by (auto simp: Let_def nat_add_distrib)
      from Cons.IH[OF ne this] Suc show ?thesis by simp
    qed
  qed
qed

lemma findIndex_nat:
  assumes "\<exists>x\<in>set xs. P x"
  shows "\<exists>n<length xs. P (xs ! n) \<and> (\<forall>j<n. \<not> P (xs ! j)) \<and> findIndex P xs = int n \<and>
           splice1 (findIndex P xs) xs = take n xs @ drop (Suc n) xs"
proof -
  from assms have ne: "findIndex P xs \<noteq> -1" by (simp add: findIndex_minus1)
  let ?n = "nat (findIndex P xs)"
  from findIndex_found[OF ne] have f: "0 \<le> findIndex P xs" "?n < length xs" "P (xs ! ?n)"
    by simp_all
  from findIndex_first[OF ne] have l: "\<forall>j<?n. \<not> P (xs ! j)" by simp
  from f(1) have i: "findIndex P xs = int ?n" by simp
  have "splice1 (findIndex P xs) xs = take ?n xs @ drop (Suc ?n) xs"
    by (simp add: splice1_def)
  with f l i show ?thesis by blast
qed

section \<open>Updates and deletes\<close>

text \<open>
  C10. \<open>updateTaskList\<close> on an existing id with the name present but empty never reports a
  duplicate name, and when the write succeeds it returns the list with its prior name and
  only \<open>updatedAt\<close> set to the clock; that list replaces the old one in the saved document.
\<close>

theorem updateTaskList_empty_name:
  assumes "readData e s = (Inr data, s1)"
    and "findIndex (\<lambda>list. list_id list = i) (taskLists data) = k" and "k \<noteq> -1"
  shows "fst (updateTaskList e i \<lparr>upd_name = Some []\<rparr> s)
           \<noteq> Inl (AppError ''A task list with this name already exists'' 409) \<and>
         (write_ok e s1 \<longrightarrow>
            fst (updateTaskList e i \<lparr>upd_name = Some []\<rparr> s)
              = Inr (Some ((taskLists data ! nat k)\<lparr>list_updatedAt := clock e\<rparr>)) \<and>
            storageFile (snd (updateTaskList e i \<lparr>upd_name = Some []\<rparr> s))
              = Some (saved e (data\<lparr>taskLists := (taskLists data)
                      [nat k := (taskLists data ! nat k)\<lparr>list_updatedAt := clock e\<rparr>]\<rparr>)))"
proof -
  let ?d = "data\<lparr>taskLists := (taskLists data)
              [nat k := (taskLists data ! nat k)\<lparr>list_updatedAt := clock e\<rparr>]\<rparr>"
  have u: "updateTaskList e i \<lparr>upd_name = Some []\<rparr> s =
    (case writeData e ?d s1 of
       (Inl _, s2) \<Rightarrow> (Inl (AppError ''Failed to update task list'' 500), s2)
     | (Inr _, s2) \<Rightarrow> (Inr (Some ((taskLists data ! nat k)\<lparr>list_updatedAt := clock e\<rparr>)), s2))"
    using assms by (simp add: updateTaskList_def truthy_def Let_def)
  have a: "fst (updateTaskList e i \<lparr>upd_name = Some []\<rparr> s)
           \<noteq> Inl (AppError ''A task list with this name already exists'' 409)"
    unfolding u by (simp split: prod.splits sum.splits)
  have b: "fst (updateTaskList e i \<lparr>upd_name = Some []\<rparr> s)
              = Inr (Some ((taskLists data ! nat k)\<lparr>list_updatedAt := clock e\<rparr>)) \<and>
            storageFile (snd (updateTaskList e i \<lparr>upd_name = Some []\<rparr> s))
              = Some (saved e ?d)"
    if "write_ok e s1"
    unfolding u by (simp add: writeData_ok[OF that])
  from a b show ?thesis by blast
qed

lemma readData_work_files: "readData (env_ok t) work_files = (Inr workDoc, work_files)"
  by (simp add: readData_def readPrimary_present_ok[of _ "stringify workDoc"] work_files_def
        env_ok_def revive_stringify)

lemma write_ok_env_ok: "write_ok (env_ok t) s"
  by (simp add: write_ok_def env_ok_def)

theorem updateTaskList_empty_name_witness:
  "readData (env_ok 9000) work_files = (Inr workDoc, work_files) \<and>
   findIndex (\<lambda>list. list_id list = ''L1'') (taskLists workDoc) = 0 \<and>
   write_ok (env_ok 9000) work_files \<and>
   fst (updateTaskList (env_ok 9000) ''L1'' \<lparr>upd_name = Some []\<rparr> work_files)
     = Inr (Some \<lparr> list_id = ''L1'', name = ''Work'', list_createdAt = 1000,
                    list_updatedAt = 9000 \<rparr>)"
proof -
  have f: "findIndex (\<lambda>list. list_id list = ''L1'') (taskLists workDoc) = 0"
    by (simp add: workDoc_def)
  have n: "(0::int) \<noteq> -1" by simp
  from updateTaskList_empty_name[OF readData_work_files[of 9000] f n] readData_work_files[of 9000] f
    write_ok_env_ok[of 9000 work_files]
  show ?thesis by (simp add: workDoc_def env_ok_def)
qed

text \<open>
  C8. \<open>updateTask\<close> on an unknown id returns \<open>null\<close> and writes nothing. On a known id (with a
  successful write) it returns the task found at the first matching index with exactly the
  fields present in the update applied, strings trimmed, \<open>updatedAt\<close> set to the clock, and
  id, listId and createdAt as before; the saved document differs from the loaded one only at
  that index of \<open>tasks\<close>.
\<close>

theorem updateTask_partial:
  assumes "readData e s = (Inr data, s1)"
  shows "((\<forall>task\<in>set (tasks data). task_id task \<noteq> i) \<longrightarrow>
            updateTask e i u s = (Inr None, s1)) \<and>
         (findIndex (\<lambda>task. task_id task = i) (tasks data) = k \<and> k \<noteq> -1 \<and> write_ok e s1 \<longrightarrow>
            (\<exists>t' s2. updateTask e i u s = (Inr (Some t'), s2) \<and>
               title t' = (case upd_title u of None \<Rightarrow> title (tasks data ! nat k)
                           | Some x \<Rightarrow> trim x) \<and>
               time t' = (case upd_time u of None \<Rightarrow> time (tasks data ! nat k)
                          | Some x \<Rightarrow> Some (trim x)) \<and>
               completed t' = (case upd_completed u of None \<Rightarrow> completed (tasks data ! nat k)
                               | Some x \<Rightarrow> x) \<and>
               updatedAt t' = clock e \<and>
               task_id t' = i \<and> task_id (tasks data ! nat k) = i \<and>
               listId t' = listId (tasks data ! nat k) \<and>
               createdAt t' = createdAt (tasks data ! nat k) \<and>
               storageFile s2 = Some (saved e (data\<lparr>tasks := (tasks data)[nat k := t']\<rparr>))))"
proof -
  have a: "updateTask e i u s = (Inr None, s1)" if "\<forall>task\<in>set (tasks data). task_id task \<noteq> i"
  proof -
    from that have "findIndex (\<lambda>task. task_id task = i) (tasks data) = -1"
      by (simp add: findIndex_minus1)
    with assms show ?thesis by (simp add: updateTask_def)
  qed
  have b: "\<exists>t' s2. updateTask e i u s = (Inr (Some t'), s2) \<and>
               title t' = (case upd_title u of None \<Rightarrow> title (tasks data ! nat k)
                           | Some x \<Rightarrow> trim x) \<and>
               time t' = (case upd_time u of None \<Rightarrow> time (tasks data ! nat k)
                          | Some x \<Rightarrow> Some (trim x)) \<and>
               completed t' = (case upd_completed u of None \<Rightarrow> completed (tasks data ! nat k)
                               | Some x \<Rightarrow> x) \<and>
               updatedAt t' = clock e \<and>
               task_id t' = i \<and> task_id (tasks data ! nat k) = i \<and>
               listId t' = listId (tasks data ! nat k) \<and>
               createdAt t' = createdAt (tasks data ! nat k) \<and>
               storageFile s2 = Some (saved e (data\<lparr>tasks := (tasks data)[nat k := t']\<rparr>))"
    if k: "findIndex (\<lambda>task. task_id task = i) (tasks data) = k" "k \<noteq> -1" and w: "write_ok e s1"
  proof -
    from findIndex_found[of "\<lambda>task. task_id task = i" "tasks data"] k
    have cur: "task_id (tasks data ! nat k) = i" by simp
    show ?thesis
      using assms k cur
      by (simp add: updateTask_def Let_def writeData_ok[OF w] split: option.splits)
  qed
  from a b show ?thesis by blast
qed

text \<open>
  C9 (as amended). \<open>deleteTaskList\<close> and \<open>deleteTask\<close> on an id that the loaded document does
  not have return \<open>false\<close> and perform no save of their own: the files are as the load left
  them. The load leaves them exactly as they were when the storage file exists. When the
  storage file is absent, the load itself writes the initial empty document to it, or, if
  that write fails, leaves the storage file absent and the backup as it was. On an id that
  the loaded document has, and with a successful write, they return \<open>true\<close> and save the
  document without its first entry of that id, the list deletion also without every task of
  that list.
\<close>

theorem delete_unknown_noop:
  assumes "readData e s = (Inr data, s1)"
  shows "((\<forall>list\<in>set (taskLists data). list_id list \<noteq> i) \<longrightarrow>
            deleteTaskList e i s = (Inr False, s1)) \<and>
         ((\<forall>task\<in>set (tasks data). task_id task \<noteq> i) \<longrightarrow>
            deleteTask e i s = (Inr False, s1)) \<and>
         (storageFile s \<noteq> None \<longrightarrow> s1 = s) \<and>
         (storageFile s = None \<and> write_ok e s \<longrightarrow>
            data = createInitialData e \<and>
            s1 = s\<lparr>storageFile := Some (Text (stringify (createInitialData e))),
                   tempFile := None\<rparr>) \<and>
         (storageFile s = None \<and> \<not> write_ok e s \<longrightarrow>
            storageFile s1 = None \<and> backupFile s1 = backupFile s) \<and>
         ((\<exists>list\<in>set (taskLists data). list_id list = i) \<and> write_ok e s1 \<longrightarrow>
            (\<exists>n<length (taskLists data).
                list_id (taskLists data ! n) = i \<and>
                (\<forall>j<n. list_id (taskLists data ! j) \<noteq> i) \<and>
                fst (deleteTaskList e i s) = Inr True \<and>
                storageFile (snd (deleteTaskList e i s)) =
                  Some (saved e
                    (data\<lparr>taskLists := take n (taskLists data) @ drop (Suc n) (taskLists data),
                          tasks := filter (\<lambda>task. listId task \<noteq> i) (tasks data)\<rparr>)))) \<and>
         ((\<exists>task\<in>set (tasks data). task_id task = i) \<and> write_ok e s1 \<longrightarrow>
            (\<exists>n<length (tasks data).
                task_id (tasks data ! n) = i \<and>
                (\<forall>j<n. task_id (tasks data ! j) \<noteq> i) \<and>
                fst (deleteTask e i s) = Inr True \<and>
                storageFile (snd (deleteTask e i s)) =
                  Some (saved e
                    (data\<lparr>tasks := take n (tasks data) @ drop (Suc n) (tasks data)\<rparr>))))"
proof -
  have a: "deleteTaskList e i s = (Inr False, s1)"
    if "\<forall>list\<in>set (taskLists data). list_id list \<noteq> i"
  proof -
    from that have "findIndex (\<lambda>list. list_id list = i) (taskLists data) = -1"
      by (simp add: findIndex_minus1)
    with assms show ?thesis by (simp add: deleteTaskList_def)
  qed
  have b: "deleteTask e i s = (Inr False, s1)"
    if "\<forall>task\<in>set (tasks data). task_id task \<noteq> i"
  proof -
    from that have "findIndex (\<lambda>task. task_id task = i) (tasks data) = -1"
      by (simp add: findIndex_minus1)
    with assms show ?thesis by (simp add: deleteTask_def)
  qed
  have c: "s1 = s" if "storageFile s \<noteq> None"
    using assms that
    by (auto simp add: readData_def readPrimary_def split: sum.splits if_splits)
  have c2: "data = createInitialData e \<and>
      s1 = s\<lparr>storageFile := Some (Text (stringify (createInitialData e))), tempFile := None\<rparr>"
    if "storageFile s = None" "write_ok e s"
    using assms readPrimary_absent_ok[OF that] by (auto simp add: readData_def)
  have c3: "storageFile s1 = None \<and> backupFile s1 = backupFile s"
    if "storageFile s = None" "\<not> write_ok e s"
  proof -
    from that have "primary_fails e s" by (simp add: primary_fails_def)
    from readPrimary_fails[OF this] obtain err s' where
      p: "readPrimary e s = (Inl err, s')" and f: "backupFile s' = backupFile s"
      "storageFile s' = storageFile s" by blast
    from p assms have "s1 = s'" by (simp add: readData_def)
    with f that(1) show ?thesis by simp
  qed
  have d: "\<exists>n<length (taskLists data).
      list_id (taskLists data ! n) = i \<and>
      (\<forall>j<n. list_id (taskLists data ! j) \<noteq> i) \<and>
      fst (deleteTaskList e i s) = Inr True \<and>
      storageFile (snd (deleteTaskList e i s)) =
        Some (saved e
          (data\<lparr>taskLists := take n (taskLists data) @ drop (Suc n) (taskLists data),
                tasks := filter (\<lambda>task. listId task \<noteq> i) (tasks data)\<rparr>))"
    if "\<exists>list\<in>set (taskLists data). list_id list = i" "write_ok e s1"
  proof -
    from findIndex_nat[OF that(1)] obtain n where
      n: "n < length (taskLists data)" "list_id (taskLists data ! n) = i"
        "\<forall>j<n. list_id (taskLists data ! j) \<noteq> i"
      and k: "findIndex (\<lambda>list. list_id list = i) (taskLists data) = int n"
      and sp: "splice1 (findIndex (\<lambda>list. list_id list = i) (taskLists data)) (taskLists data)
             = take n (taskLists data) @ drop (Suc n) (taskLists data)"
      by blast
    from k have "findIndex (\<lambda>list. list_id list = i) (taskLists data) \<noteq> -1" by simp
    with assms that(2) sp
    have "fst (deleteTaskList e i s) = Inr True \<and>
      storageFile (snd (deleteTaskList e i s)) =
        Some (saved e
          (data\<lparr>taskLists := take n (taskLists data) @ drop (Suc n) (taskLists data),
                tasks := filter (\<lambda>task. listId task \<noteq> i) (tasks data)\<rparr>))"
      by (simp add: deleteTaskList_def Let_def writeData_ok)
    with n show ?thesis by blast
  qed
  have f: "\<exists>n<length (tasks data).
      task_id (tasks data ! n) = i \<and>
      (\<forall>j<n. task_id (tasks data ! j) \<noteq> i) \<and>
      fst (deleteTask e i s) = Inr True \<and>
      storageFile (snd (deleteTask e i s)) =
        Some (saved e (data\<lparr>tasks := take n (tasks data) @ drop (Suc n) (tasks data)\<rparr>))"
    if "\<exists>task\<in>set (tasks data). task_id task = i" "write_ok e s1"
  proof -
    from findIndex_nat[OF that(1)] obtain n where
      n: "n < length (tasks data)" "task_id (tasks data ! n) = i"
        "\<forall>j<n. task_id (tasks data ! j) \<noteq> i"
      and k: "findIndex (\<lambda>task. task_id task = i) (tasks data) = int n"
      and sp: "splice1 (findIndex (\<lambda>task. task_id task = i) (tasks data)) (tasks data)
             = take n (tasks data) @ drop (Suc n) (tasks data)"
      by blast
    from k have "findIndex (\<lambda>task. task_id task = i) (tasks data) \<noteq> -1" by simp
    with assms that(2) sp
    have "fst (deleteTask e i s) = Inr True \<and>
      storageFile (snd (deleteTask e i s)) =
        Some (saved e (data\<lparr>tasks := take n (tasks data) @ drop (Suc n) (tasks data)\<rparr>))"
      by (simp add: deleteTask_def Let_def writeData_ok)
    with n show ?thesis by blast
  qed
  from a have 1: "(\<forall>list\<in>set (taskLists data). list_id list \<noteq> i) \<longrightarrow>
      deleteTaskList e i s = (Inr False, s1)" by blast
  from b have 2: "(\<forall>task\<in>set (tasks data). task_id task \<noteq> i) \<longrightarrow>
      deleteTask e i s = (Inr False, s1)" by blast
  from c have 3: "storageFile s \<noteq> None \<longrightarrow> s1 = s" by blast
  from c2 have 4: "storageFile s = None \<and> write_ok e s \<longrightarrow>
      data = createInitialData e \<and>
      s1 = s\<lparr>storageFile := Some (Text (stringify (createInitialData e))),
             tempFile := None\<rparr>" by blast
  from c3 have 5: "storageFile s = None \<and> \<not> write_ok e s \<longrightarrow>
      storageFile s1 = None \<and> backupFile s1 = backupFile s" by blast
  from d have 6: "(\<exists>list\<in>set (taskLists data). list_id list = i) \<and> write_ok e s1 \<longrightarrow>
      (\<exists>n<length (taskLists data).
          list_id (taskLists data ! n) = i \<and>
          (\<forall>j<n. list_id (taskLists data ! j) \<noteq> i) \<and>
          fst (deleteTaskList e i s) = Inr True \<and>
          storageFile (snd (deleteTaskList e i s)) =
            Some (saved e
              (data\<lparr>taskLists := take n (taskLists data) @ drop (Suc n) (taskLists data),
                    tasks := filter (\<lambda>task. listId task \<noteq> i) (tasks data)\<rparr>)))"
    by (intro impI) (elim conjE)
  from f have 7: "(\<exists>task\<in>set (tasks data). task_id task = i) \<and> write_ok e s1 \<longrightarrow>
      (\<exists>n<length (tasks data).
          task_id (tasks data ! n) = i \<and>
          (\<forall>j<n. task_id (tasks data ! j) \<noteq> i) \<and>
          fst (deleteTask e i s) = Inr True \<and>
          storageFile (snd (deleteTask e i s)) =
            Some (saved e
              (data\<lparr>tasks := take n (tasks data) @ drop (Suc n) (tasks data)\<rparr>)))"
    by (intro impI) (elim conjE)
  show ?thesis by (intro conjI) (rule 1 2 3 4 5 6 7)+
qed

text \<open>
  The claim as stated says that a delete of an unknown id performs no save and leaves the
  stored document unchanged. In the empty data directory, \<open>deleteTask\<close> and \<open>deleteTaskList\<close>
  return \<open>false\<close> and the storage file has been written: it holds the initial empty document.
\<close>

theorem delete_unknown_counterexample:
  "storageFile no_files = None \<and>
   deleteTask (env_ok 9000) ''T1'' no_files
     = (Inr False,
        no_files\<lparr>storageFile := Some (Text (stringify (createInitialData (env_ok 9000))))\<rparr>) \<and>
   deleteTaskList (env_ok 9000) ''L1'' no_files
     = (Inr False,
        no_files\<lparr>storageFile := Some (Text (stringify (createInitialData (env_ok 9000))))\<rparr>) \<and>
   storageFile (snd (deleteTask (env_ok 9000) ''T1'' no_files)) \<noteq> storageFile no_files \<and>
   storageFile (snd (deleteTaskList (env_ok 9000) ''L1'' no_files)) \<noteq> storageFile no_files"
proof -
  have w: "write_ok (env_ok 9000) no_files" by (rule write_ok_env_ok)
  have n: "storageFile no_files = None" by (simp add: no_files_def)
  have r: "readData (env_ok 9000) no_files
     = (Inr (createInitialData (env_ok 9000)),
        no_files\<lparr>storageFile := Some (Text (stringify (createInitialData (env_ok 9000))))\<rparr>)"
    using readPrimary_absent_ok[OF n w] by (simp add: readData_def no_files_def)
  have t: "deleteTask (env_ok 9000) ''T1'' no_files
     = (Inr False,
        no_files\<lparr>storageFile := Some (Text (stringify (createInitialData (env_ok 9000))))\<rparr>)"
    by (simp add: deleteTask_def r createInitialData_def)
  have l: "deleteTaskList (env_ok 9000) ''L1'' no_files
     = (Inr False,
        no_files\<lparr>storageFile := Some (Text (stringify (createInitialData (env_ok 9000))))\<rparr>)"
    by (simp add: deleteTaskList_def r createInitialData_def)
  from n t l show ?thesis by simp
qed

theorem updateTask_partial_witness:
  "readData (env_ok 9000) work_files = (Inr workDoc, work_files) \<and>
   findIndex (\<lambda>task. task_id task = ''T1'') (tasks workDoc) = 0 \<and>
   write_ok (env_ok 9000) work_files \<and>
   fst (updateTask (env_ok 9000) ''T1''
          \<lparr>upd_title = Some '' Buy oat milk '', upd_time = None, upd_completed = Some True\<rparr>
          work_files)
     = Inr (Some \<lparr> task_id = ''T1'', title = ''Buy oat milk'', time = None, completed = True,
                    listId = ''L1'', createdAt = 2000, updatedAt = 9000 \<rparr>) \<and>
   updateTask (env_ok 9000) ''T2''
          \<lparr>upd_title = Some '' Buy oat milk '', upd_time = None, upd_completed = Some True\<rparr>
          work_files
     = (Inr None, work_files)"
proof -
  let ?u = "\<lparr>upd_title = Some '' Buy oat milk '', upd_time = None, upd_completed = Some True\<rparr>"
  have f: "findIndex (\<lambda>task. task_id task = ''T1'') (tasks workDoc) = 0"
    by (simp add: workDoc_def)
  have g: "\<forall>task\<in>set (tasks workDoc). task_id task \<noteq> ''T2''"
    by (simp add: workDoc_def)
  have t: "trim '' Buy oat milk '' = ''Buy oat milk''"
    by (simp add: trim_def isWhiteSpace_def)
  have w: "write_ok (env_ok 9000) work_files"
    by (rule write_ok_env_ok)
  from updateTask_partial[OF readData_work_files[of 9000], where i = "''T2''" and k = 0
      and u = ?u] g
  have unknown: "updateTask (env_ok 9000) ''T2'' ?u work_files = (Inr None, work_files)"
    by blast
  from updateTask_partial[OF readData_work_files[of 9000], where i = "''T1''" and k = 0
      and u = ?u] f w
  obtain t' s2 where r: "updateTask (env_ok 9000) ''T1'' ?u work_files = (Inr (Some t'), s2)"
    and fields: "title t' = trim '' Buy oat milk ''" "time t' = time (tasks workDoc ! nat 0)"
      "completed t' = True" "updatedAt t' = clock (env_ok 9000)" "task_id t' = ''T1''"
      "listId t' = listId (tasks workDoc ! nat 0)"
      "createdAt t' = createdAt (tasks workDoc ! nat 0)"
    by auto
  from fields t have "t' = \<lparr> task_id = ''T1'', title = ''Buy oat milk'', time = None,
      completed = True, listId = ''L1'', createdAt = 2000, updatedAt = 9000 \<rparr>"
    by (cases t') (simp add: workDoc_def env_ok_def)
  with r unknown readData_work_files[of 9000] f w show ?thesis by simp
qed

lemma readData_office_files:
  "readData (env_ok t) office_files = (Inr officeDoc, office_files)"
  by (simp add: readData_def readPrimary_present_ok[of _ "stringify officeDoc"]
        office_files_def revive_stringify env_ok_def)

theorem delete_unknown_noop_witness:
  "readData (env_ok 9000) office_files = (Inr officeDoc, office_files) \<and>
   storageFile office_files = Some (Text (stringify officeDoc)) \<and>
   deleteTaskList (env_ok 9000) ''L9'' office_files = (Inr False, office_files) \<and>
   deleteTask (env_ok 9000) ''T9'' office_files = (Inr False, office_files) \<and>
   write_ok (env_ok 9000) office_files \<and>
   fst (deleteTaskList (env_ok 9000) ''L1'' office_files) = Inr True \<and>
   storageFile (snd (deleteTaskList (env_ok 9000) ''L1'' office_files))
     = Some (saved (env_ok 9000)
         (officeDoc\<lparr>taskLists := [\<lparr> list_id = ''L2'', name = ''Home'',
                                     list_createdAt = 3000, list_updatedAt = 3000 \<rparr>],
                    tasks := [\<lparr> task_id = ''T2'', title = ''Water plants'', time = None,
                                 completed = True, listId = ''L2'',
                                 createdAt = 5000, updatedAt = 5500 \<rparr>]\<rparr>)) \<and>
   fst (deleteTask (env_ok 9000) ''T2'' office_files) = Inr True \<and>
   storageFile (snd (deleteTask (env_ok 9000) ''T2'' office_files))
     = Some (saved (env_ok 9000)
         (officeDoc\<lparr>tasks := [\<lparr> task_id = ''T1'', title = ''Write report'', time = None,
                                 completed = False, listId = ''L1'',
                                 createdAt = 4000, updatedAt = 4000 \<rparr>,
                              \<lparr> task_id = ''T3'', title = ''Send invoice'', time = None,
                                 completed = False, listId = ''L1'',
                                 createdAt = 6000, updatedAt = 6000 \<rparr>]\<rparr>)) \<and>
   storageFile no_files = None \<and> write_ok (env_ok 9000) no_files \<and>
   deleteTask (env_ok 9000) ''T1'' no_files
     = (Inr False,
        no_files\<lparr>storageFile := Some (Text (stringify (createInitialData (env_ok 9000)))),
                  tempFile := None\<rparr>) \<and>
   write_ok (env_write_fails 9000) no_files = False \<and>
   readData (env_write_fails 9000) no_files
     = (Inr (createInitialData (env_write_fails 9000)), no_files) \<and>
   deleteTask (env_write_fails 9000) ''T1'' no_files = (Inr False, no_files)"
proof -
  note r = readData_office_files[of 9000]
  have w: "write_ok (env_ok 9000) office_files" by (rule write_ok_env_ok)
  have p: "storageFile office_files = Some (Text (stringify officeDoc))"
    "storageFile office_files \<noteq> None"
    by (simp_all add: office_files_def)
  have u: "\<forall>list\<in>set (taskLists officeDoc). list_id list \<noteq> ''L9''"
    "\<forall>task\<in>set (tasks officeDoc). task_id task \<noteq> ''T9''"
    by (simp_all add: officeDoc_def)
  from delete_unknown_noop[OF r, where i = "''L9''"] u(1)
  have 1: "deleteTaskList (env_ok 9000) ''L9'' office_files = (Inr False, office_files)"
    by blast
  from delete_unknown_noop[OF r, where i = "''T9''"] u(2)
  have 2: "deleteTask (env_ok 9000) ''T9'' office_files = (Inr False, office_files)"
    by blast
  have kl: "\<exists>list\<in>set (taskLists officeDoc). list_id list = ''L1''"
    by (simp add: officeDoc_def)
  from delete_unknown_noop[OF r, where i = "''L1''"] kl w
  obtain n where n: "n < length (taskLists officeDoc)"
      "list_id (taskLists officeDoc ! n) = ''L1''"
    and dl: "fst (deleteTaskList (env_ok 9000) ''L1'' office_files) = Inr True"
      "storageFile (snd (deleteTaskList (env_ok 9000) ''L1'' office_files)) =
         Some (saved (env_ok 9000)
           (officeDoc\<lparr>taskLists := take n (taskLists officeDoc)
                                     @ drop (Suc n) (taskLists officeDoc),
                      tasks := filter (\<lambda>task. listId task \<noteq> ''L1'') (tasks officeDoc)\<rparr>))"
    by blast
  from n have n0: "n = 0" by (auto simp add: officeDoc_def less_Suc_eq)
  have 3: "storageFile (snd (deleteTaskList (env_ok 9000) ''L1'' office_files))
     = Some (saved (env_ok 9000)
         (officeDoc\<lparr>taskLists := [\<lparr> list_id = ''L2'', name = ''Home'',
                                     list_createdAt = 3000, list_updatedAt = 3000 \<rparr>],
                    tasks := [\<lparr> task_id = ''T2'', title = ''Water plants'', time = None,
                                 completed = True, listId = ''L2'',
                                 createdAt = 5000, updatedAt = 5500 \<rparr>]\<rparr>))"
    using dl(2) unfolding n0 by (simp add: officeDoc_def)
  have kt: "\<exists>task\<in>set (tasks officeDoc). task_id task = ''T2''"
    by (simp add: officeDoc_def)
  from delete_unknown_noop[OF r, where i = "''T2''"] kt w
  obtain m where m: "m < length (tasks officeDoc)" "task_id (tasks officeDoc ! m) = ''T2''"
    and dt: "fst (deleteTask (env_ok 9000) ''T2'' office_files) = Inr True"
      "storageFile (snd (deleteTask (env_ok 9000) ''T2'' office_files)) =
         Some (saved (env_ok 9000)
           (officeDoc\<lparr>tasks := take m (tasks officeDoc) @ drop (Suc m) (tasks officeDoc)\<rparr>))"
    by blast
  from m have m1: "m = Suc 0" by (auto simp add: officeDoc_def less_Suc_eq)
  have 4: "storageFile (snd (deleteTask (env_ok 9000) ''T2'' office_files))
     = Some (saved (env_ok 9000)
         (officeDoc\<lparr>tasks := [\<lparr> task_id = ''T1'', title = ''Write report'', time = None,
                                 completed = False, listId = ''L1'',
                                 createdAt = 4000, updatedAt = 4000 \<rparr>,
                              \<lparr> task_id = ''T3'', title = ''Send invoice'', time = None,
                                 completed = False, listId = ''L1'',
                                 createdAt = 6000, updatedAt = 6000 \<rparr>]\<rparr>))"
    using dt(2) unfolding m1 by (simp add: officeDoc_def)
  have nn: "storageFile no_files = None" by (simp add: no_files_def)
  have wn: "write_ok (env_ok 9000) no_files" by (rule write_ok_env_ok)
  obtain d0 s0 where r0: "readData (env_ok 9000) no_files = (Inr d0, s0)"
    using readData_total by blast
  from delete_unknown_noop[OF r0, where i = "''T1''"] nn wn
  have d0: "d0 = createInitialData (env_ok 9000)"
    and s0: "s0 = no_files\<lparr>storageFile :=
                  Some (Text (stringify (createInitialData (env_ok 9000)))),
                tempFile := None\<rparr>"
    by blast+
  have e0: "\<forall>task\<in>set (tasks d0). task_id task \<noteq> ''T1''"
    unfolding d0 by (simp add: createInitialData_def)
  from delete_unknown_noop[OF r0, where i = "''T1''"] e0
  have "deleteTask (env_ok 9000) ''T1'' no_files = (Inr False, s0)" by blast
  with s0 have 5: "deleteTask (env_ok 9000) ''T1'' no_files
     = (Inr False,
        no_files\<lparr>storageFile := Some (Text (stringify (createInitialData (env_ok 9000)))),
                  tempFile := None\<rparr>)"
    by simp
  have nw: "\<not> write_ok (env_write_fails 9000) no_files"
    by (simp add: write_ok_def env_write_fails_def)
  have rf: "readData (env_write_fails 9000) no_files
     = (Inr (createInitialData (env_write_fails 9000)), no_files)"
    by (simp add: readData_def readPrimary_def ensureDataDirectory_def writeData_def Let_def
          readBackup_def env_write_fails_def env_ok_def no_files_def)
  have e1:
    "\<forall>task\<in>set (tasks (createInitialData (env_write_fails 9000))). task_id task \<noteq> ''T1''"
    by (simp add: createInitialData_def)
  from delete_unknown_noop[OF rf, where i = "''T1''"] e1
  have 6: "deleteTask (env_write_fails 9000) ''T1'' no_files = (Inr False, no_files)"
    by blast
  from r p(1) 1 2 w dl(1) 3 dt(1) 4 nn wn 5 nw rf 6 show ?thesis by simp
qed

section \<open>Properties of the numbers\<close>

lemma round_double_tenth: "round_double (1 / 10) = 3602879701896397 / 36028797018963968"
  by code_simp

lemma round_double_quarter: "round_double (1 / 4) = 1 / 4"
  by code_simp

lemma ilog2_bounds:
  assumes "0 < x"
  shows "2 powi ilog2 x \<le> x \<and> x < 2 powi (ilog2 x + 1)"
proof (cases "1 \<le> x")
  case True
  define n where "n = nat \<lfloor>x\<rfloor>"
  have n: "0 < n" using True by (simp add: n_def)
  have "0 \<le> \<lfloor>x\<rfloor>" using True by simp
  then have nn: "(of_nat n :: rat) = of_int \<lfloor>x\<rfloor>" by (simp add: n_def)
  have nx: "of_nat n \<le> x" "x < of_nat n + 1"
    unfolding nn by linarith+
  from floorlog_bounds[OF n, of 2] have b: "2 ^ (floorlog 2 n - 1) \<le> n" "n < 2 ^ floorlog 2 n"
    by simp_all
  have fpos: "0 < floorlog 2 n" using n by (simp add: floorlog_def)
  have e: "ilog2 x = int (floorlog 2 n - 1)" using True fpos by (simp add: ilog2_def n_def)
  have "(2::rat) ^ (floorlog 2 n - 1) \<le> of_nat n"
    using b(1) by (metis of_nat_le_iff of_nat_numeral of_nat_power)
  from order_trans[OF this nx(1)] have lo: "2 powi ilog2 x \<le> x"
    by (simp only: e power_int_of_nat)
  have "n + 1 \<le> 2 ^ floorlog 2 n" using b(2) by simp
  then have "(of_nat (n + 1) :: rat) \<le> 2 ^ floorlog 2 n"
    by (metis of_nat_le_iff of_nat_numeral of_nat_power)
  then have "(of_nat n :: rat) + 1 \<le> 2 ^ floorlog 2 n" by (simp only: of_nat_add of_nat_1)
  from less_le_trans[OF nx(2) this] have "x < 2 ^ floorlog 2 n" .
  moreover have "ilog2 x + 1 = int (floorlog 2 n)" using e fpos by simp
  ultimately have "x < 2 powi (ilog2 x + 1)" by (simp only: power_int_of_nat)
  with lo show ?thesis by simp
next
  case False
  define y where "y = 1 / x"
  have y: "1 < y" using False assms by (simp add: y_def)
  define m where "m = nat (\<lceil>y\<rceil> - 1)"
  have c2: "2 \<le> \<lceil>y\<rceil>" using y by (simp add: le_ceiling_iff)
  have m: "0 < m" using c2 by (simp add: m_def)
  have my: "of_nat m < y" "y \<le> of_nat m + 1"
  proof -
    have "of_int (\<lceil>y\<rceil> - 1) < y" by linarith
    moreover have "(of_nat m :: rat) = of_int (\<lceil>y\<rceil> - 1)" using c2 by (simp add: m_def)
    ultimately show "of_nat m < y" by simp
    have "y \<le> of_int \<lceil>y\<rceil>" by simp
    moreover have "(of_nat m :: rat) + 1 = of_int \<lceil>y\<rceil>" using c2 by (simp add: m_def)
    ultimately show "y \<le> of_nat m + 1" by simp
  qed
  define j where "j = floorlog 2 m"
  from floorlog_bounds[OF m, of 2] have b: "2 ^ (j - 1) \<le> m" "m < 2 ^ j"
    by (simp_all add: j_def)
  have jpos: "0 < j" using m by (simp add: floorlog_def j_def)
  have e: "ilog2 x = - int j" using False by (simp add: ilog2_def j_def m_def y_def)
  have "m + 1 \<le> 2 ^ j" using b(2) by simp
  then have "(of_nat (m + 1) :: rat) \<le> 2 ^ j"
    by (metis of_nat_le_iff of_nat_numeral of_nat_power)
  then have "(of_nat m :: rat) + 1 \<le> 2 ^ j" by (simp only: of_nat_add of_nat_1)
  from order_trans[OF my(2) this] have yu: "y \<le> 2 ^ j" .
  have "(2::rat) ^ (j - 1) \<le> of_nat m"
    using b(1) by (metis of_nat_le_iff of_nat_numeral of_nat_power)
  from le_less_trans[OF this my(1)] have yl: "2 ^ (j - 1) < y" .
  have x: "1 / y = x" using assms by (simp add: y_def)
  have p1: "(2::rat) powi ilog2 x = 1 / 2 ^ j"
    by (simp only: e power_int_minus_divide power_int_of_nat)
  have "ilog2 x + 1 = - int (j - 1)" using e jpos by simp
  then have p2: "(2::rat) powi (ilog2 x + 1) = 1 / 2 ^ (j - 1)"
    by (simp only: power_int_minus_divide power_int_of_nat)
  have "1 / 2 ^ j \<le> 1 / y" using yu y by (intro divide_left_mono) simp_all
  then have lo: "2 powi ilog2 x \<le> x" by (simp only: p1 x)
  have "1 / y < 1 / 2 ^ (j - 1)" using yl y by (intro divide_strict_left_mono) simp_all
  then have "x < 2 powi (ilog2 x + 1)" by (simp only: p2 x)
  with lo show ?thesis by simp
qed

lemma ilog2_unique:
  assumes "0 < x" and "2 powi e \<le> x" and "x < 2 powi (e + 1)"
  shows "ilog2 x = e"
proof (rule antisym)
  from ilog2_bounds[OF assms(1)] have b: "2 powi ilog2 x \<le> x" "x < 2 powi (ilog2 x + 1)"
    by simp_all
  show "ilog2 x \<le> e"
  proof (rule ccontr)
    assume "\<not> ilog2 x \<le> e"
    then have "e + 1 \<le> ilog2 x" by simp
    then have "(2::rat) powi (e + 1) \<le> 2 powi ilog2 x" by (intro power_int_increasing) simp_all
    with b(1) assms(3) show False by simp
  qed
  show "e \<le> ilog2 x"
  proof (rule ccontr)
    assume "\<not> e \<le> ilog2 x"
    then have "ilog2 x + 1 \<le> e" by simp
    then have "(2::rat) powi (ilog2 x + 1) \<le> 2 powi e" by (intro power_int_increasing) simp_all
    with b(2) assms(2) show False by simp
  qed
qed

lemma ilog2_mono:
  assumes "0 < x" and "x \<le> y"
  shows "ilog2 x \<le> ilog2 y"
proof (rule ccontr)
  assume "\<not> ilog2 x \<le> ilog2 y"
  then have "ilog2 y + 1 \<le> ilog2 x" by simp
  then have "(2::rat) powi (ilog2 y + 1) \<le> 2 powi ilog2 x"
    by (intro power_int_increasing) simp_all
  moreover from ilog2_bounds[OF assms(1)] have "2 powi ilog2 x \<le> x" by simp
  moreover from assms have "0 < y" by simp
  from ilog2_bounds[OF this] have "y < 2 powi (ilog2 y + 1)" by simp
  ultimately show False using assms(2) by simp
qed


lemma round_even_bounds: "\<lfloor>y\<rfloor> \<le> round_even y \<and> round_even y \<le> \<lfloor>y\<rfloor> + 1"
  by (simp add: round_even_def Let_def)

lemma round_even_int [simp]: "round_even (of_int n) = n"
  by (simp add: round_even_def)

lemma round_even_close: "\<bar>of_int (round_even y) - y\<bar> \<le> 1 / 2"
proof -
  show ?thesis by (auto simp add: round_even_def Let_def abs_if; linarith)
qed

lemma round_even_mono:
  assumes "y \<le> z"
  shows "round_even y \<le> round_even z"
proof (cases "\<lfloor>y\<rfloor> = \<lfloor>z\<rfloor>")
  case True
  with assms show ?thesis by (auto simp add: round_even_def Let_def)
next
  case False
  with assms have "\<lfloor>y\<rfloor> + 1 \<le> \<lfloor>z\<rfloor>" using floor_mono[OF assms] by linarith
  with round_even_bounds[of y] round_even_bounds[of z] show ?thesis by linarith
qed

lemma round_even_ge: "of_int n \<le> y \<Longrightarrow> n \<le> round_even y"
  using round_even_mono[of "of_int n" y] by simp

lemma round_even_le: "y \<le> of_int n \<Longrightarrow> round_even y \<le> n"
  using round_even_mono[of y "of_int n"] by simp

text \<open>The mantissa of a positive number lies between \<open>2^52\<close> and \<open>2^53\<close>.\<close>

lemma mantissa_bounds:
  assumes "0 < x"
  shows "2 ^ 52 \<le> x / 2 powi (ilog2 x - 52) \<and> x / 2 powi (ilog2 x - 52) < 2 ^ 53"
proof -
  have u: "(0::rat) < 2 powi (ilog2 x - 52)" by simp
  from ilog2_bounds[OF assms] have b: "2 powi ilog2 x \<le> x" "x < 2 powi (ilog2 x + 1)"
    by simp_all
  have "(2::rat) powi ilog2 x = 2 ^ 52 * 2 powi (ilog2 x - 52)"
    by (simp add: power_int_diff)
  with b(1) have "2 ^ 52 * 2 powi (ilog2 x - 52) \<le> x" by simp
  then have lo: "2 ^ 52 \<le> x / 2 powi (ilog2 x - 52)" using u by (simp add: le_divide_eq)
  have "(2::rat) powi (ilog2 x + 1) = 2 ^ 53 * 2 powi (ilog2 x - 52)"
    by (simp add: power_int_diff power_int_add)
  with b(2) have "x < 2 ^ 53 * 2 powi (ilog2 x - 52)" by simp
  then have "x / 2 powi (ilog2 x - 52) < 2 ^ 53" using u by (simp add: divide_less_eq)
  with lo show ?thesis by simp
qed

lemma round_double_pos:
  "0 < x \<Longrightarrow> round_double x
     = of_int (round_even (x / 2 powi (ilog2 x - 52))) * 2 powi (ilog2 x - 52)"
  by (simp add: round_double_def Let_def)

lemma round_double_0 [simp]: "round_double 0 = 0"
  by (simp add: round_double_def)

lemma round_double_bounds:
  assumes "0 < x"
  shows "2 powi ilog2 x \<le> round_double x \<and> round_double x \<le> 2 powi (ilog2 x + 1)"
proof -
  let ?u = "(2::rat) powi (ilog2 x - 52)"
  let ?m = "round_even (x / ?u)"
  from mantissa_bounds[OF assms] have mb: "of_int (2 ^ 52) \<le> x / ?u" "x / ?u \<le> of_int (2 ^ 53)"
    by simp_all
  from round_even_ge[OF mb(1)] round_even_le[OF mb(2)] have m: "2 ^ 52 \<le> ?m" "?m \<le> 2 ^ 53"
    by simp_all
  have u: "0 < ?u" by simp
  have "(2::rat) ^ 52 \<le> of_int ?m" using m(1) by (metis of_int_le_iff of_int_numeral of_int_power)
  then have "2 ^ 52 * ?u \<le> of_int ?m * ?u" using u by (simp add: mult_right_mono)
  moreover have "(2::rat) powi ilog2 x = 2 ^ 52 * ?u" by (simp add: power_int_diff)
  ultimately have lo: "2 powi ilog2 x \<le> round_double x"
    by (simp only: round_double_pos[OF assms])
  have "of_int ?m \<le> (2::rat) ^ 53" using m(2) by (metis of_int_le_iff of_int_numeral of_int_power)
  then have "of_int ?m * ?u \<le> 2 ^ 53 * ?u" using u by (simp add: mult_right_mono)
  moreover have "(2::rat) powi (ilog2 x + 1) = 2 ^ 53 * ?u"
    by (simp add: power_int_diff power_int_add)
  ultimately have "round_double x \<le> 2 powi (ilog2 x + 1)"
    by (simp only: round_double_pos[OF assms])
  with lo show ?thesis by simp
qed

lemma round_double_nonneg: "0 \<le> x \<Longrightarrow> 0 \<le> round_double x"
proof (cases "x = 0")
  case False
  assume "0 \<le> x"
  with False have "0 < x" by simp
  from round_double_bounds[OF this] have "2 powi ilog2 x \<le> round_double x" by simp
  moreover have "(0::rat) < 2 powi ilog2 x" by simp
  ultimately show ?thesis by linarith
qed simp

lemma round_double_mono:
  assumes "0 \<le> x" and "x \<le> y"
  shows "round_double x \<le> round_double y"
proof (cases "x = 0")
  case True
  with assms round_double_nonneg[of y] show ?thesis by simp
next
  case False
  with assms have x: "0 < x" and y: "0 < y" by simp_all
  show ?thesis
  proof (cases "ilog2 x = ilog2 y")
    case True
    let ?u = "(2::rat) powi (ilog2 y - 52)"
    have u: "0 < ?u" by simp
    have "x / ?u \<le> y / ?u" using assms(2) u by (simp add: divide_right_mono)
    from round_even_mono[OF this] have "of_int (round_even (x / ?u)) * ?u \<le> of_int (round_even (y / ?u)) * ?u"
      using u by (simp add: mult_right_mono)
    then show ?thesis by (simp only: round_double_pos[OF x] round_double_pos[OF y] True)
  next
    case False
    with ilog2_mono[OF x assms(2)] have "ilog2 x + 1 \<le> ilog2 y" by simp
    then have "(2::rat) powi (ilog2 x + 1) \<le> 2 powi ilog2 y"
      by (intro power_int_increasing) simp_all
    with round_double_bounds[OF x] round_double_bounds[OF y] show ?thesis by linarith
  qed
qed

lemma round_double_error:
  assumes "0 < x"
  shows "\<bar>round_double x - x\<bar> \<le> x / 2 ^ 53"
proof -
  let ?u = "(2::rat) powi (ilog2 x - 52)"
  have u: "0 < ?u" by simp
  have "\<bar>of_int (round_even (x / ?u)) - x / ?u\<bar> \<le> 1 / 2" by (rule round_even_close)
  then have "\<bar>of_int (round_even (x / ?u)) - x / ?u\<bar> * ?u \<le> 1 / 2 * ?u"
    using u by (intro mult_right_mono) simp_all
  moreover have "\<bar>of_int (round_even (x / ?u)) - x / ?u\<bar> * ?u = \<bar>round_double x - x\<bar>"
  proof -
    have "\<bar>of_int (round_even (x / ?u)) - x / ?u\<bar> * ?u
            = \<bar>(of_int (round_even (x / ?u)) - x / ?u) * ?u\<bar>"
      using u by (simp add: abs_mult)
    also have "(of_int (round_even (x / ?u)) - x / ?u) * ?u = round_double x - x"
      using u by (simp add: round_double_pos[OF assms] left_diff_distrib)
    finally show ?thesis .
  qed
  moreover have "1 / 2 * ?u = 2 powi ilog2 x / 2 ^ 53" by (simp add: power_int_diff)
  moreover from ilog2_bounds[OF assms] have "2 powi ilog2 x / 2 ^ 53 \<le> x / 2 ^ 53"
    by (simp add: divide_right_mono)
  ultimately show ?thesis by simp
qed

lemma round_double_int:
  assumes "0 < n" and "n \<le> 2 ^ 53"
  shows "round_double (of_int n) = of_int n"
proof -
  let ?x = "of_int n :: rat"
  have x: "0 < ?x" using assms(1) by simp
  let ?e = "ilog2 ?x"
  from ilog2_bounds[OF x] have b: "2 powi ?e \<le> ?x" by simp
  have e: "?e \<le> 53"
  proof (rule ccontr)
    assume "\<not> ?e \<le> 53"
    then have "54 \<le> ?e" by simp
    then have "(2::rat) powi 54 \<le> 2 powi ?e" by (intro power_int_increasing) simp_all
    with b have "(2::rat) ^ 54 \<le> of_int n" by simp
    moreover have "(of_int n :: rat) \<le> 2 ^ 53" using assms(2)
      by (metis of_int_le_iff of_int_numeral of_int_power)
    ultimately show False by simp
  qed
  have e0: "0 \<le> ?e"
  proof (rule ccontr)
    assume "\<not> 0 \<le> ?e"
    then have "?e + 1 \<le> 0" by simp
    then have "(2::rat) powi (?e + 1) \<le> 2 powi 0" by (intro power_int_increasing) simp_all
    moreover from ilog2_bounds[OF x] have "?x < 2 powi (?e + 1)" by simp
    ultimately have "?x < 1" by simp
    with assms(1) show False by simp
  qed
  show ?thesis
  proof (cases "?e \<le> 52")
    case True
    then have "(2::rat) powi (?e - 52) = 1 / 2 ^ nat (52 - ?e)"
      using power_int_minus_divide[of "2::rat" "52 - ?e"] by (simp add: power_int_def)
    then have d: "?x / 2 powi (?e - 52) = of_int (n * 2 ^ nat (52 - ?e))" by simp
    show ?thesis
      unfolding round_double_pos[OF x] d round_even_int
      using \<open>(2::rat) powi (?e - 52) = 1 / 2 ^ nat (52 - ?e)\<close> by simp
  next
    case False
    with e have e53: "?e = 53" by simp
    with b have "(2::rat) ^ 53 \<le> of_int n" by simp
    moreover have "(of_int n :: rat) \<le> 2 ^ 53" using assms(2)
      by (metis of_int_le_iff of_int_numeral of_int_power)
    ultimately have n: "(of_int n :: rat) = 2 ^ 53" by simp
    have u: "(2::rat) powi (?e - 52) = 2" by (simp add: e53)
    have "?x / 2 = of_int (2 ^ 52)" by (simp add: n)
    then have "round_double ?x = of_int (round_even (of_int (2 ^ 52))) * 2"
      by (simp only: round_double_pos[OF x] u)
    also have "\<dots> = 2 ^ 53" by (simp only: round_even_int) simp
    finally show ?thesis by (simp only: n)
  qed
qed


lemma round_double_numerals [simp]:
  "round_double 1 = 1" "round_double 25 = 25" "round_double 100 = 100"
  "round_double 2500 = 2500" "round_double 10000 = 10000"
  using round_double_int[of 1] round_double_int[of 25] round_double_int[of 100]
    round_double_int[of 2500] round_double_int[of 10000]
  by simp_all

lemma round_double_le:
  assumes "0 \<le> x" and "x \<le> of_int n" and "0 < n" and "n \<le> 2 ^ 53"
  shows "round_double x \<le> of_int n"
  using round_double_mono[OF assms(1,2)] round_double_int[OF assms(3,4)] by simp

text \<open>The four rounded operations of the completion rate, with their error bounds.\<close>

lemma rate_steps:
  assumes "0 < c" and "c \<le> t"
  defines "a \<equiv> of_int c / of_int t"
  defines "q \<equiv> js_div (of_int c) (of_int t)"
  defines "p \<equiv> js_mul q 100"
  defines "r \<equiv> js_mul p 100"
  shows "0 < q \<and> q \<le> 1 \<and> 0 < p \<and> p \<le> 100 \<and> 0 < r \<and> r \<le> 10000 \<and>
         \<bar>r - 10000 * a\<bar> \<le> 30000 / 2 ^ 53"
proof -
  have t: "0 < t" using assms(1,2) by simp
  have a: "0 < a" "a \<le> 1" using assms(1,2) t by (simp_all add: a_def divide_le_eq_1)
  have pos: "0 < round_double x" if "0 < x" for x
  proof -
    from round_double_bounds[OF that] have "2 powi ilog2 x \<le> round_double x" by simp
    moreover have "(0::rat) < 2 powi ilog2 x" by simp
    ultimately show ?thesis by linarith
  qed
  have q: "q = round_double a" by (simp add: q_def js_div_def a_def)
  have q0: "0 < q" unfolding q using a(1) by (rule pos)
  have q1: "q \<le> 1" unfolding q using round_double_le[of a 1] a by simp
  have qe: "\<bar>q - a\<bar> \<le> 1 / 2 ^ 53"
  proof -
    from round_double_error[OF a(1)] have "\<bar>q - a\<bar> \<le> a / 2 ^ 53" by (simp add: q)
    also have "\<dots> \<le> 1 / 2 ^ 53" using a(2) by (simp add: divide_right_mono)
    finally show ?thesis .
  qed
  have p: "p = round_double (q * 100)" by (simp add: p_def js_mul_def)
  have q100: "0 < q * 100" "q * 100 \<le> 100" using q0 q1 by simp_all
  have p0: "0 < p" unfolding p using q100(1) by (rule pos)
  have p1: "p \<le> 100" unfolding p using round_double_le[of "q * 100" 100] q100 by simp
  have pe: "\<bar>p - q * 100\<bar> \<le> 100 / 2 ^ 53"
  proof -
    from round_double_error[OF q100(1)] have "\<bar>p - q * 100\<bar> \<le> q * 100 / 2 ^ 53" by (simp add: p)
    also have "\<dots> \<le> 100 / 2 ^ 53" using q100(2) by (simp add: divide_right_mono)
    finally show ?thesis .
  qed
  have r: "r = round_double (p * 100)" by (simp add: r_def js_mul_def)
  have p100: "0 < p * 100" "p * 100 \<le> 10000" using p0 p1 by simp_all
  have r0: "0 < r" unfolding r using p100(1) by (rule pos)
  have r1: "r \<le> 10000" unfolding r using round_double_le[of "p * 100" 10000] p100 by simp
  have re: "\<bar>r - p * 100\<bar> \<le> 10000 / 2 ^ 53"
  proof -
    from round_double_error[OF p100(1)] have "\<bar>r - p * 100\<bar> \<le> p * 100 / 2 ^ 53"
      by (simp add: r)
    also have "\<dots> \<le> 10000 / 2 ^ 53" using p100(2) by (simp add: divide_right_mono)
    finally show ?thesis .
  qed
  have "\<bar>r - 10000 * a\<bar> \<le> \<bar>r - p * 100\<bar> + 100 * \<bar>p - q * 100\<bar> + 10000 * \<bar>q - a\<bar>"
    by (simp add: abs_if split: if_splits)
  also have "\<dots> \<le> 10000 / 2 ^ 53 + 100 * (100 / 2 ^ 53) + 10000 * (1 / 2 ^ 53)"
    using re pe qe by (intro add_mono mult_left_mono) simp_all
  also have "\<dots> = 30000 / 2 ^ 53" by simp
  finally have "\<bar>r - 10000 * a\<bar> \<le> 30000 / 2 ^ 53" .
  with q0 q1 p0 p1 r0 r1 show ?thesis by simp
qed

lemma Math_round_int: "Math_round (of_int n) = n"
  unfolding Math_round_def by (rule floor_unique) simp_all

lemma Math_round_numerals [simp]: "Math_round 0 = 0" "Math_round 2500 = 2500"
  using Math_round_int[of 0] Math_round_int[of 2500] by simp_all

lemma rate_of_unfold:
  "0 < t \<Longrightarrow> rate_of c t
     = round_double (of_int (Math_round (js_mul (js_mul (js_div (of_int c) (of_int t)) 100) 100))
                     / 100)"
  by (simp add: rate_of_def js_div_def)

lemma rate_of_zero: "c = 0 \<or> t \<le> 0 \<Longrightarrow> rate_of c t = 0"
  by (auto simp add: rate_of_def js_div_def js_mul_def)

lemma rate_of_bounds:
  assumes "0 \<le> c" and "c \<le> t"
  shows "0 \<le> rate_of c t \<and> rate_of c t \<le> 100"
proof (cases "c = 0")
  case True
  then show ?thesis by (simp add: rate_of_zero)
next
  case False
  with assms have c: "0 < c" and t: "0 < t" by simp_all
  define r where "r = js_mul (js_mul (js_div (of_int c) (of_int t)) 100) 100"
  from rate_steps[OF c assms(2)] have r: "0 < r" "r \<le> 10000" by (simp_all add: r_def)
  have k0: "0 \<le> Math_round r" using r(1) by (simp add: Math_round_def)
  have "r + 1 / 2 < 10001" using r(2) by simp
  then have "Math_round r < 10001" unfolding Math_round_def by (simp add: floor_less_iff)
  then have k1: "Math_round r \<le> 10000" by simp
  have x0: "(0::rat) \<le> of_int (Math_round r) / 100" using k0 by simp
  have x1: "(of_int (Math_round r) :: rat) / 100 \<le> of_int 100"
  proof -
    have "(of_int (Math_round r) :: rat) \<le> of_int 10000" using k1 by (simp only: of_int_le_iff)
    then show ?thesis by simp
  qed
  have "rate_of c t = round_double (of_int (Math_round r) / 100)"
    by (simp only: rate_of_unfold[OF t] r_def)
  with round_double_nonneg[OF x0] round_double_le[OF x0 x1] show ?thesis by simp
qed

text \<open>
  For fewer than \<open>2^32\<close> tasks the integer that \<open>Math.round\<close> returns is a nearest integer to the
  exact value of \<open>10000 c / t\<close>: the rounding error of the three operations before it is
  smaller than the distance of that value from any half-integer it does not hit.
\<close>

lemma rate_nearest:
  assumes "0 \<le> c" and "c \<le> t" and "0 < t" and "t < 2 ^ 32"
  defines "k \<equiv> Math_round (js_mul (js_mul (js_div (of_int c) (of_int t)) 100) 100)"
  shows "\<bar>of_int k - 10000 * (of_int c / of_int t :: rat)\<bar> \<le> 1 / 2"
proof (cases "c = 0")
  case True
  then show ?thesis by (simp add: k_def js_div_def js_mul_def)
next
  case False
  with assms(1) have c: "0 < c" by simp
  define r where "r = js_mul (js_mul (js_div (of_int c) (of_int t)) 100) 100"
  define X :: rat where "X = 10000 * (of_int c / of_int t)"
  from rate_steps[OF c assms(2)] have err: "\<bar>r - X\<bar> \<le> 30000 / 2 ^ 53"
    by (simp add: r_def X_def)
  have k: "of_int k \<le> r + 1 / 2" "r + 1 / 2 < of_int k + 1"
    unfolding k_def r_def[symmetric] Math_round_def by linarith+
  have tpos: "(0::rat) < of_int t" using assms(3) by simp
  have tX: "of_int t * X = of_int (10000 * c)" using assms(3) by (simp add: X_def)
  have tlt: "(of_int t :: rat) < 2 ^ 32" using assms(4)
    by (metis of_int_less_iff of_int_numeral of_int_power)
  have gap: "(30000 / 2 ^ 53 :: rat) * (2 * of_int t) < 1"
  proof -
    have "(30000 / 2 ^ 53 :: rat) * (2 * of_int t) < 30000 / 2 ^ 53 * (2 * 2 ^ 32)"
      using tlt by (intro mult_strict_left_mono) simp_all
    also have "\<dots> < 1" by simp
    finally show ?thesis .
  qed
  have upper: "X \<le> of_int k + 1 / 2"
  proof (rule ccontr)
    assume "\<not> X \<le> of_int k + 1 / 2"
    then have "of_int k + 1 / 2 < X" by simp
    then have "of_int t * (of_int k + 1 / 2) < of_int t * X"
      using tpos by (simp add: mult_strict_left_mono)
    then have "of_int t * (2 * of_int k + 1) < (2 * (of_int t * X) :: rat)"
      by (simp add: algebra_simps)
    then have "(of_int (t * (2 * k + 1)) :: rat) < of_int (2 * (10000 * c))"
      by (simp add: tX)
    then have "t * (2 * k + 1) < 2 * (10000 * c)" by (simp only: of_int_less_iff)
    then have "t * (2 * k + 1) + 1 \<le> 2 * (10000 * c)" by simp
    then have "(of_int (t * (2 * k + 1) + 1) :: rat) \<le> of_int (2 * (10000 * c))"
      by (simp only: of_int_le_iff)
    then have "of_int t * (2 * of_int k + 1) + 1 \<le> (2 * (of_int t * X) :: rat)"
      by (simp add: tX)
    then have "1 \<le> (X - (of_int k + 1 / 2)) * (2 * of_int t)"
      by (simp add: algebra_simps)
    moreover have "X - (of_int k + 1 / 2) \<le> 30000 / 2 ^ 53"
      using err k(2) by linarith
    then have "(X - (of_int k + 1 / 2)) * (2 * of_int t) \<le> 30000 / 2 ^ 53 * (2 * of_int t)"
      using tpos by (intro mult_right_mono) simp_all
    ultimately show False using gap by linarith
  qed
  have lower: "of_int k - 1 / 2 \<le> X"
  proof (rule ccontr)
    assume "\<not> of_int k - 1 / 2 \<le> X"
    then have "X < of_int k - 1 / 2" by simp
    then have "of_int t * X < of_int t * (of_int k - 1 / 2)"
      using tpos by (simp add: mult_strict_left_mono)
    then have "(2 * (of_int t * X) :: rat) < of_int t * (2 * of_int k - 1)"
      by (simp add: algebra_simps)
    then have "(of_int (2 * (10000 * c)) :: rat) < of_int (t * (2 * k - 1))"
      by (simp add: tX)
    then have "2 * (10000 * c) < t * (2 * k - 1)" by (simp only: of_int_less_iff)
    then have "2 * (10000 * c) + 1 \<le> t * (2 * k - 1)" by simp
    then have "(of_int (2 * (10000 * c) + 1) :: rat) \<le> of_int (t * (2 * k - 1))"
      by (simp only: of_int_le_iff)
    then have "(2 * (of_int t * X) :: rat) + 1 \<le> of_int t * (2 * of_int k - 1)"
      by (simp add: tX)
    then have "1 \<le> ((of_int k - 1 / 2) - X) * (2 * of_int t)"
      by (simp add: algebra_simps)
    moreover have "(of_int k - 1 / 2) - X \<le> 30000 / 2 ^ 53"
      using err k(1) by linarith
    then have "((of_int k - 1 / 2) - X) * (2 * of_int t) \<le> 30000 / 2 ^ 53 * (2 * of_int t)"
      using tpos by (intro mult_right_mono) simp_all
    ultimately show False using gap by linarith
  qed
  from upper lower have "\<bar>of_int k - X\<bar> \<le> 1 / 2" by linarith
  then show ?thesis by (simp only: X_def)
qed

lemma rate_of_quarter: "rate_of 1 4 = 25"
  by (simp add: rate_of_def js_div_def js_mul_def round_double_quarter)

text \<open>
  At an exact tie the double arithmetic may fall below the half: 23 completed of 160 is
  14.375 percent, and the rate is the double nearest to 14.37.
\<close>

lemma rate_of_tie: "rate_of 23 160 = round_double (1437 / 100)"
  by code_simp

section \<open>Statistics\<close>

lemma code_stats:
  "\<lparr> totalTasks = int (length ts),
     completedTasks = int (length (filter completed ts)),
     pendingTasks = int (length ts) - int (length (filter completed ts)),
     completionRate =
       js_div (of_int (Math_round (js_mul
         (if int (length ts) > 0
          then js_mul (js_div (of_int (int (length (filter completed ts))))
                              (of_int (int (length ts)))) 100
          else 0) 100))) 100 \<rparr>
   = stats_of ts"
  by (simp only: stats_of_def rate_of_def Let_def)

lemma stats_of_bounds:
  "0 \<le> completionRate (stats_of ts) \<and> completionRate (stats_of ts) \<le> 100"
  using rate_of_bounds[of "int (length (filter completed ts))" "int (length ts)"]
  by (simp add: stats_of_def)

lemma stats_of_zero:
  "totalTasks (stats_of ts) = 0 \<Longrightarrow> completionRate (stats_of ts) = 0"
  "completedTasks (stats_of ts) = 0 \<Longrightarrow> completionRate (stats_of ts) = 0"
  by (simp_all add: stats_of_def rate_of_zero)

lemma getTaskListStats_spec:
  assumes "readData e s = (Inr data, s1)"
  shows "getTaskListStats e i s =
    (if find (\<lambda>list. list_id list = i) (taskLists data) = None then (Inr None, s1)
     else (Inr (Some (stats_of (filter (\<lambda>task. listId task = i) (tasks data)))), s1))"
  unfolding getTaskListStats_def assms Let_def
  by (simp only: prod.case sum.case code_stats)

lemma readData_present_state: "storageFile s \<noteq> None \<Longrightarrow> snd (readData e s) = s"
  by (auto simp add: readData_def readPrimary_def split: sum.splits if_splits)

lemma readData_absent_fail:
  assumes "storageFile s = None" and "dataDir_ok e" and "\<not> (writeFile_ok e \<and> rename_ok e)"
  shows "readData e s =
    (readBackup e s,
     if writeFile_ok e then s\<lparr>tempFile := Some (saved e (createInitialData e))\<rparr> else s)"
  using assms
  by (auto simp add: readData_def readPrimary_def ensureDataDirectory_def writeData_def Let_def
      readBackup_def saved_def)

lemma readData_again:
  assumes "readData e s = (Inr d, s1)" and "taskLists d \<noteq> []"
  shows "readData e s1 = (Inr d, s1)"
proof (cases "storageFile s")
  case (Some c)
  then have "snd (readData e s) = s" by (simp add: readData_present_state)
  with assms(1) show ?thesis by simp
next
  case None
  show ?thesis
  proof (cases "dataDir_ok e")
    case False
    with assms(1) show ?thesis
      by (auto simp add: readData_def readPrimary_def ensureDataDirectory_def)
  next
    case True
    show ?thesis
    proof (cases "writeFile_ok e \<and> rename_ok e")
      case True
      with None \<open>dataDir_ok e\<close> have "write_ok e s" by (simp add: write_ok_def)
      from readPrimary_absent_ok[OF None this] assms show ?thesis
        by (auto simp add: readData_def createInitialData_def)
    next
      case False
      from readData_absent_fail[OF None True False] assms(1)
      have d: "readBackup e s = Inr d"
        and s1: "s1 = (if writeFile_ok e
                       then s\<lparr>tempFile := Some (saved e (createInitialData e))\<rparr> else s)"
        by simp_all
      from s1 None have n1: "storageFile s1 = None" by simp
      from s1 have b: "readBackup e s1 = readBackup e s" by (simp add: readBackup_def)
      from s1 have f: "(if writeFile_ok e
                       then s1\<lparr>tempFile := Some (saved e (createInitialData e))\<rparr> else s1) = s1"
        by simp
      from readData_absent_fail[OF n1 True False] b d f show ?thesis by simp
    qed
  qed
qed

lemma taskListExists_eq:
  assumes "readData e s = (Inr d, s1)"
  shows "taskListExists e i s = (find (\<lambda>list. list_id list = i) (taskLists d) \<noteq> None, s1)"
  using assms by (simp add: taskListExists_def getTaskListById_def)

lemma find_Some_nonempty: "find P xs \<noteq> None \<Longrightarrow> xs \<noteq> []"
  by (cases xs) auto

lemma scopeTasks_all:
  "\<not> truthy lid \<Longrightarrow> scopeTasks e lid d s1 = (Inr (tasks d), s1)"
  by (simp add: scopeTasks_def)

lemma scopeTasks_list:
  assumes "readData e s = (Inr d, s1)" and "truthy lid"
    and "find (\<lambda>list. list_id list = the lid) (taskLists d) \<noteq> None"
  shows "scopeTasks e lid d s1 = (Inr (filter (\<lambda>task. listId task = the lid) (tasks d)), s1)"
proof -
  from assms(3) have "taskLists d \<noteq> []" by (rule find_Some_nonempty)
  from readData_again[OF assms(1) this] have "readData e s1 = (Inr d, s1)" .
  from taskListExists_eq[OF this, of "the lid"] assms(2,3) show ?thesis
    by (simp add: scopeTasks_def)
qed

lemma getTaskStats_unfold:
  "getTaskStats e lid s =
     (case readData e s of
        (Inl _, s1) \<Rightarrow> (Inl (AppError ''Failed to get task statistics'' 500), s1)
      | (Inr data, s1) \<Rightarrow>
          (case scopeTasks e lid data s1 of
             (Inl err, s2) \<Rightarrow> (Inl err, s2)
           | (Inr scoped, s2) \<Rightarrow> (Inr (stats_of scoped), s2)))"
  unfolding getTaskStats_def Let_def
  by (simp only: code_stats)

lemma getTaskStats_form:
  "fst (getTaskStats e lid s) = Inr st \<Longrightarrow> \<exists>ts. st = stats_of ts"
  by (auto simp add: getTaskStats_unfold split: prod.splits sum.splits)

lemma getTaskListStats_form:
  "fst (getTaskListStats e i s) = Inr (Some st) \<Longrightarrow> \<exists>ts. st = stats_of ts"
proof -
  obtain d s1 where r: "readData e s = (Inr d, s1)" using readData_total by blast
  assume "fst (getTaskListStats e i s) = Inr (Some st)"
  then show ?thesis
    unfolding getTaskListStats_spec[OF r] by (auto split: if_splits)
qed

text \<open>
  C3 (as amended). Every statistics result, of \<open>getTaskListStats\<close> and of \<open>getTaskStats\<close> in any
  scope, has a completion rate between 0 and 100, and the rate is 0 whenever the scope has
  no task. The converse does not hold: the rate is also 0 whenever no task of the scope is
  completed.
\<close>

theorem completionRate_bounds:
  assumes "fst (getTaskListStats e i s) = Inr (Some st) \<or> fst (getTaskStats e lid s) = Inr st"
  shows "0 \<le> completionRate st \<and> completionRate st \<le> 100 \<and>
         (totalTasks st = 0 \<longrightarrow> completionRate st = 0) \<and>
         (completedTasks st = 0 \<longrightarrow> completionRate st = 0)"
proof -
  from assms obtain ts where "st = stats_of ts"
    using getTaskListStats_form getTaskStats_form by blast
  then show ?thesis
    using stats_of_bounds[of ts] stats_of_zero[of ts] by simp
qed

text \<open>
  The claim as stated says that the rate is 0 only for an empty scope. A list with one
  pending task has \<open>totalTasks = 1\<close> and rate 0.
\<close>

theorem completionRate_zero_counterexample:
  "fst (getTaskListStats (env_ok 9000) ''L1'' work_files)
     = Inr (Some \<lparr> totalTasks = 1, completedTasks = 0, pendingTasks = 1, completionRate = 0 \<rparr>)
   \<and> fst (getTaskStats (env_ok 9000) None work_files)
     = Inr \<lparr> totalTasks = 1, completedTasks = 0, pendingTasks = 1, completionRate = 0 \<rparr>"
  by (simp add: getTaskListStats_spec[OF readData_work_files] getTaskStats_unfold
      readData_work_files scopeTasks_def truthy_def stats_of_def workDoc_def rate_of_zero)

theorem completionRate_bounds_witness:
  "fst (getTaskStats (env_ok 9000) None no_files)
     = Inr \<lparr> totalTasks = 0, completedTasks = 0, pendingTasks = 0, completionRate = 0 \<rparr> \<and>
   0 \<le> completionRate \<lparr> totalTasks = 0, completedTasks = 0, pendingTasks = 0, completionRate = 0 \<rparr> \<and>
   completionRate \<lparr> totalTasks = 0, completedTasks = 0, pendingTasks = 0, completionRate = 0 \<rparr>
     \<le> 100"
proof -
  have r: "readData (env_ok 9000) no_files = (Inr (createInitialData (env_ok 9000)),
      no_files\<lparr>storageFile := Some (Text (stringify (createInitialData (env_ok 9000)))),
               tempFile := None\<rparr>)"
    by (simp add: readData_def readPrimary_absent_ok no_files_def write_ok_env_ok)
  have g: "fst (getTaskStats (env_ok 9000) None no_files)
     = Inr \<lparr> totalTasks = 0, completedTasks = 0, pendingTasks = 0, completionRate = 0 \<rparr>"
    by (simp add: getTaskStats_unfold r scopeTasks_def truthy_def stats_of_def
        createInitialData_def rate_of_zero)
  from completionRate_bounds[where e = "env_ok 9000" and lid = None and s = no_files
      and st = "\<lparr> totalTasks = 0, completedTasks = 0, pendingTasks = 0, completionRate = 0 \<rparr>"
      and i = "[]"] g
  show ?thesis by simp
qed

lemma readData_groceries_files:
  "readData (env_ok t) groceries_files = (Inr groceriesDoc, groceries_files)"
  by (simp add: readData_def readPrimary_present_ok[of _ "stringify groceriesDoc"]
        groceries_files_def env_ok_def revive_stringify)

lemma getTaskStats_list:
  assumes "readData e s = (Inr data, s1)" and "i \<noteq> []"
    and "find (\<lambda>list. list_id list = i) (taskLists data) \<noteq> None"
  shows "getTaskStats e (Some i) s =
           (Inr (stats_of (filter (\<lambda>task. listId task = i) (tasks data))), s1)"
proof -
  have "truthy (Some i)" using assms(2) by (simp add: truthy_def)
  from scopeTasks_list[OF assms(1) this] assms(3)
  have "scopeTasks e (Some i) data s1 =
          (Inr (filter (\<lambda>task. listId task = i) (tasks data)), s1)" by simp
  then show ?thesis by (simp add: getTaskStats_unfold assms(1))
qed

text \<open>
  C4. For an existing list, \<open>getTaskListStats\<close> and \<open>getTaskStats\<close> with that list as scope
  (a non-empty id) return the same statistics: \<open>totalTasks\<close> is the number of tasks of the list,
  \<open>completedTasks\<close> the number of the completed ones, \<open>pendingTasks\<close> their difference, and
  \<open>completionRate\<close> is 0 for a list without tasks and otherwise, for fewer than \<open>2^32\<close> tasks,
  the double nearest to a hundredth \<open>k / 100\<close> that is within half a hundredth of the exact
  percentage \<open>completedTasks / totalTasks * 100\<close>. Four tasks of which one is completed give
  pending 3 and rate 25.
\<close>

theorem list_stats_correct:
  assumes "readData e s = (Inr data, s1)"
    and "\<exists>list\<in>set (taskLists data). list_id list = i"
  shows "\<exists>st. getTaskListStats e i s = (Inr (Some st), s1) \<and>
           (i \<noteq> [] \<longrightarrow> getTaskStats e (Some i) s = (Inr st, s1)) \<and>
           totalTasks st = int (length (filter (\<lambda>task. listId task = i) (tasks data))) \<and>
           completedTasks st =
             int (length (filter (\<lambda>task. listId task = i \<and> completed task) (tasks data))) \<and>
           pendingTasks st = totalTasks st - completedTasks st \<and>
           (totalTasks st = 0 \<longrightarrow> completionRate st = 0) \<and>
           (0 < totalTasks st \<and> totalTasks st < 2 ^ 32 \<longrightarrow>
              (\<exists>k::int. completionRate st = round_double (of_int k / 100) \<and>
                 \<bar>of_int k / 100
                    - of_int (completedTasks st) / of_int (totalTasks st) * 100 :: rat\<bar>
                   \<le> 1 / 200)) \<and>
           (totalTasks st = 4 \<and> completedTasks st = 1 \<longrightarrow>
              pendingTasks st = 3 \<and> completionRate st = 25)"
proof -
  let ?ts = "filter (\<lambda>task. listId task = i) (tasks data)"
  let ?t = "int (length ?ts)" and ?c = "int (length (filter completed ?ts))"
  from assms(2) have f: "find (\<lambda>list. list_id list = i) (taskLists data) \<noteq> None"
    by (auto simp add: find_None_iff)
  have a: "getTaskListStats e i s = (Inr (Some (stats_of ?ts)), s1)"
    using f by (simp add: getTaskListStats_spec[OF assms(1)])
  have b: "getTaskStats e (Some i) s = (Inr (stats_of ?ts), s1)" if "i \<noteq> []"
    by (rule getTaskStats_list[OF assms(1) that f])
  have c: "totalTasks (stats_of ?ts) = ?t" "completedTasks (stats_of ?ts) = ?c"
    "completedTasks (stats_of ?ts)
       = int (length (filter (\<lambda>task. listId task = i \<and> completed task) (tasks data)))"
    "pendingTasks (stats_of ?ts) = totalTasks (stats_of ?ts) - completedTasks (stats_of ?ts)"
    "completionRate (stats_of ?ts) = rate_of ?c ?t"
    by (simp_all add: stats_of_def conj_commute)
  have d: "completionRate (stats_of ?ts) = 0" if "totalTasks (stats_of ?ts) = 0"
    using that by (rule stats_of_zero(1))
  have g: "\<exists>k::int. completionRate (stats_of ?ts) = round_double (of_int k / 100) \<and>
      \<bar>of_int k / 100 - of_int (completedTasks (stats_of ?ts))
                         / of_int (totalTasks (stats_of ?ts)) * 100 :: rat\<bar> \<le> 1 / 200"
    if "0 < totalTasks (stats_of ?ts)" "totalTasks (stats_of ?ts) < 2 ^ 32"
  proof -
    from that have t: "0 < ?t" "?t < 2 ^ 32" by (simp_all only: c(1))
    have ct: "0 \<le> ?c" "?c \<le> ?t"
      using length_filter_le[of completed ?ts] by linarith+
    define k where "k = Math_round (js_mul (js_mul (js_div (of_int ?c) (of_int ?t)) 100) 100)"
    from rate_nearest[OF ct t] have n: "\<bar>of_int k - 10000 * (of_int ?c / of_int ?t :: rat)\<bar> \<le> 1 / 2"
      by (simp only: k_def)
    have "\<bar>of_int k / 100 - of_int ?c / of_int ?t * 100 :: rat\<bar>
            = \<bar>of_int k - 10000 * (of_int ?c / of_int ?t)\<bar> / 100"
      by (simp add: abs_if field_simps)
    also have "\<dots> \<le> (1 / 2) / 100" using n by (intro divide_right_mono) simp_all
    finally have "\<bar>of_int k / 100 - of_int ?c / of_int ?t * 100 :: rat\<bar> \<le> 1 / 200" by simp
    moreover have "rate_of ?c ?t = round_double (of_int k / 100)"
      by (simp only: rate_of_unfold[OF t(1)] k_def)
    ultimately show ?thesis by (simp only: c(1,2,5)) blast
  qed
  have h: "pendingTasks (stats_of ?ts) = 3 \<and> completionRate (stats_of ?ts) = 25"
    if "totalTasks (stats_of ?ts) = 4" "completedTasks (stats_of ?ts) = 1"
  proof -
    from that c(4) have "pendingTasks (stats_of ?ts) = 3" by simp
    moreover from that have "?t = 4" "?c = 1" by (simp_all only: c(1,2))
    then have "completionRate (stats_of ?ts) = 25" by (simp only: c(5) rate_of_quarter)
    ultimately show ?thesis by simp
  qed
  from a b c(1,3,4) d g h show ?thesis by blast
qed

theorem list_stats_correct_witness:
  "readData (env_ok 9000) groceries_files = (Inr groceriesDoc, groceries_files) \<and>
   getTaskListStats (env_ok 9000) ''L1'' groceries_files
     = (Inr (Some \<lparr> totalTasks = 4, completedTasks = 1, pendingTasks = 3,
                     completionRate = 25 \<rparr>), groceries_files) \<and>
   getTaskStats (env_ok 9000) (Some ''L1'') groceries_files
     = (Inr \<lparr> totalTasks = 4, completedTasks = 1, pendingTasks = 3, completionRate = 25 \<rparr>,
        groceries_files)"
proof -
  have m: "\<exists>list\<in>set (taskLists groceriesDoc). list_id list = ''L1''"
    by (simp add: groceriesDoc_def)
  have n: "int (length (filter (\<lambda>task. listId task = ''L1'') (tasks groceriesDoc))) = 4"
    "int (length (filter (\<lambda>task. listId task = ''L1'' \<and> completed task) (tasks groceriesDoc)))
       = 1"
    by (simp_all add: groceriesDoc_def mkTask_def)
  from list_stats_correct[OF readData_groceries_files[of 9000] m]
  obtain st where st:
    "getTaskListStats (env_ok 9000) ''L1'' groceries_files = (Inr (Some st), groceries_files)"
    "''L1'' \<noteq> [] \<longrightarrow>
       getTaskStats (env_ok 9000) (Some ''L1'') groceries_files = (Inr st, groceries_files)"
    "totalTasks st = int (length (filter (\<lambda>task. listId task = ''L1'') (tasks groceriesDoc)))"
    "completedTasks st =
       int (length (filter (\<lambda>task. listId task = ''L1'' \<and> completed task)
                      (tasks groceriesDoc)))"
    "totalTasks st = 4 \<and> completedTasks st = 1 \<longrightarrow>
       pendingTasks st = 3 \<and> completionRate st = 25"
    by blast
  from st(3,4) n have c: "totalTasks st = 4" "completedTasks st = 1" by simp_all
  with st(5) have "pendingTasks st = 3" "completionRate st = 25" by simp_all
  with c have "st = \<lparr> totalTasks = 4, completedTasks = 1, pendingTasks = 3,
                      completionRate = 25 \<rparr>"
    by (cases st) simp
  with st(1,2) readData_groceries_files[of 9000] show ?thesis by simp
qed

section \<open>Search\<close>

lemma mset_insert_by: "mset (insert_by cmp x ys) = add_mset x (mset ys)"
  by (induction ys) auto

lemma mset_js_sort: "mset (js_sort cmp xs) = mset xs"
  by (induction xs) (auto simp: js_sort_def mset_insert_by)

lemma set_insert_by: "set (insert_by cmp x ys) = insert x (set ys)"
  by (induction ys) auto

lemma sorted_insert_by:
  assumes total: "\<And>a b. cmp a b \<le> 0 \<or> cmp b a \<le> 0"
    and trans: "\<And>a b c. cmp a b \<le> 0 \<Longrightarrow> cmp b c \<le> 0 \<Longrightarrow> cmp a c \<le> 0"
    and "sorted_wrt (\<lambda>a b. cmp a b \<le> 0) ys"
  shows "sorted_wrt (\<lambda>a b. cmp a b \<le> 0) (insert_by cmp x ys)"
  using assms(3)
proof (induction ys)
  case Nil
  then show ?case by simp
next
  case (Cons y ys)
  show ?case
  proof (cases "cmp x y \<le> 0")
    case True
    with Cons.prems trans[of x y] show ?thesis by auto
  next
    case False
    with total[of x y] have "cmp y x \<le> 0" by simp
    with Cons False show ?thesis by (auto simp: set_insert_by)
  qed
qed

lemma sorted_js_sort:
  assumes "\<And>a b. cmp a b \<le> 0 \<or> cmp b a \<le> 0"
    and "\<And>a b c. cmp a b \<le> 0 \<Longrightarrow> cmp b c \<le> 0 \<Longrightarrow> cmp a c \<le> 0"
  shows "sorted_wrt (\<lambda>a b. cmp a b \<le> 0) (js_sort cmp xs)"
proof (induction xs)
  case Nil
  then show ?case by (simp add: js_sort_def)
next
  case (Cons x xs)
  from sorted_insert_by[of cmp "js_sort cmp xs" x, OF assms Cons]
  show ?case by (simp add: js_sort_def)
qed

lemma searchCompare_le: "searchCompare q a b \<le> 0 \<longleftrightarrow> search_order q a b"
  by (auto simp add: searchCompare_def search_order_def exact_match_def Let_def)

lemma sorted_search:
  "sorted_wrt (search_order q) (js_sort (searchCompare q) xs)"
proof -
  have "sorted_wrt (\<lambda>a b. searchCompare q a b \<le> 0) (js_sort (searchCompare q) xs)"
    by (rule sorted_js_sort) (auto simp add: searchCompare_le search_order_def)
  then show ?thesis by (simp add: searchCompare_le)
qed

lemma searchTasks_scoped:
  assumes "readData e s = (Inr data, s1)"
    and "scopeTasks e lid data s1 = (Inr scoped, s1)"
  shows "searchTasks e query lid s =
    (Inr (js_sort (searchCompare (trim (toLowerCase query)))
           (filter (\<lambda>task. \<exists>pre suf.
               toLowerCase (title task) = pre @ trim (toLowerCase query) @ suf) scoped)), s1)"
  using assms by (simp add: searchTasks_def Let_def str_includes_def sublist_def)

text \<open>
  C5 (as amended). With the scope either all tasks or, for an existing list, the tasks of that
  list, \<open>searchTasks\<close> returns exactly the tasks of the scope whose lower-cased title contains
  the lower-cased and trimmed query, ordered with the titles equal to that query first and,
  within the exact and within the remaining matches, by creation time descending. Given tasks
  titled Milk and Buy milk, in either order and with any creation times, searching milk returns
  Milk before Buy milk.
\<close>

theorem searchTasks_result:
  assumes "readData e s = (Inr data, s1)"
    and "truthy lid \<longrightarrow> (\<exists>list\<in>set (taskLists data). list_id list = the lid)"
    and "scoped = (if truthy lid then filter (\<lambda>task. listId task = the lid) (tasks data)
                   else tasks data)"
  shows "(\<exists>r. searchTasks e query lid s = (Inr r, s1) \<and>
            mset r = mset (filter (\<lambda>task. \<exists>pre suf.
               toLowerCase (title task) = pre @ trim (toLowerCase query) @ suf) scoped) \<and>
            sorted_wrt (search_order (trim (toLowerCase query))) r) \<and>
         ((tasks data = [a, b] \<or> tasks data = [b, a]) \<and>
            title a = ''Milk'' \<and> title b = ''Buy milk'' \<longrightarrow>
            searchTasks e ''milk'' None s = (Inr [a, b], s1))"
proof -
  have sc: "scopeTasks e lid data s1 = (Inr scoped, s1)"
  proof (cases "truthy lid")
    case True
    with assms(2) have "find (\<lambda>list. list_id list = the lid) (taskLists data) \<noteq> None"
      by (auto simp add: find_None_iff)
    from scopeTasks_list[OF assms(1) True this] True assms(3) show ?thesis by simp
  next
    case False
    with assms(3) show ?thesis by (simp add: scopeTasks_all)
  qed
  have 1: "\<exists>r. searchTasks e query lid s = (Inr r, s1) \<and>
            mset r = mset (filter (\<lambda>task. \<exists>pre suf.
               toLowerCase (title task) = pre @ trim (toLowerCase query) @ suf) scoped) \<and>
            sorted_wrt (search_order (trim (toLowerCase query))) r"
    unfolding searchTasks_scoped[OF assms(1) sc]
    by (simp add: mset_js_sort sorted_search)
  have 2: "searchTasks e ''milk'' None s = (Inr [a, b], s1)"
    if t: "tasks data = [a, b] \<or> tasks data = [b, a]" "title a = ''Milk''" "title b = ''Buy milk''"
  proof -
    have q: "trim (toLowerCase ''milk'') = ''milk''" by (simp add: str_eval)
    have ma: "str_includes (toLowerCase (title a)) ''milk''"
      and mb: "str_includes (toLowerCase (title b)) ''milk''"
      using t(2,3) by (simp_all add: str_eval)
    have ca: "searchCompare ''milk'' a b = -1" and cb: "searchCompare ''milk'' b a = 1"
      using t(2,3) by (simp_all add: searchCompare_def str_eval)
    from t(1) show ?thesis
      using assms(1) q ma mb ca cb
      by (auto simp add: searchTasks_def scopeTasks_def truthy_def Let_def js_sort_def)
  qed
  from 1 2 show ?thesis by blast
qed

text \<open>
  The claim as stated matches the query itself. The code trims it: the query \<open>milk\<close> followed by
  a space returns the task titled Buy milk, whose title does not contain that query.
\<close>

theorem searchTasks_trim_counterexample:
  "fst (searchTasks (env_ok 9000) ''milk '' None work_files) = Inr (tasks workDoc) \<and>
   map title (tasks workDoc) = [''Buy milk''] \<and>
   \<not> sublist (toLowerCase ''milk '') (toLowerCase ''Buy milk'')"
  by (simp add: searchTasks_def readData_work_files scopeTasks_def truthy_def js_sort_def
      workDoc_def str_eval)

lemma readData_milk_files: "readData (env_ok t) milk_files = (Inr milkDoc, milk_files)"
  by (simp add: readData_def readPrimary_present_ok[of _ "stringify milkDoc"]
        milk_files_def env_ok_def revive_stringify)

theorem searchTasks_result_witness:
  "readData (env_ok 9000) milk_files = (Inr milkDoc, milk_files) \<and>
   truthy (Some ''L1'') \<and>
   tasks milkDoc = [mkTask ''T2'' ''Buy milk'' False 3000, mkTask ''T1'' ''Milk'' False 2000] \<and>
   title (mkTask ''T1'' ''Milk'' False 2000) = ''Milk'' \<and>
   title (mkTask ''T2'' ''Buy milk'' False 3000) = ''Buy milk'' \<and>
   searchTasks (env_ok 9000) ''milk'' None milk_files
     = (Inr [mkTask ''T1'' ''Milk'' False 2000, mkTask ''T2'' ''Buy milk'' False 3000],
        milk_files) \<and>
   (\<exists>r. searchTasks (env_ok 9000) '' MILK '' (Some ''L1'') milk_files = (Inr r, milk_files) \<and>
        mset r = mset (tasks milkDoc) \<and> sorted_wrt (search_order ''milk'') r)"
proof -
  have h: "truthy (Some ''L1'')"
    "truthy (Some ''L1'') \<longrightarrow> (\<exists>list\<in>set (taskLists milkDoc). list_id list = the (Some ''L1''))"
    "truthy None \<longrightarrow> (\<exists>list\<in>set (taskLists milkDoc). list_id list = the None)"
    by (simp_all add: truthy_def milkDoc_def)
  have t: "tasks milkDoc = [mkTask ''T2'' ''Buy milk'' False 3000, mkTask ''T1'' ''Milk'' False 2000]"
    "title (mkTask ''T1'' ''Milk'' False 2000) = ''Milk''"
    "title (mkTask ''T2'' ''Buy milk'' False 3000) = ''Buy milk''"
    by (simp_all add: milkDoc_def mkTask_def)
  have q: "trim (toLowerCase '' MILK '') = ''milk''" by (simp add: str_eval)
  have f: "filter (\<lambda>task. \<exists>pre suf.
               toLowerCase (title task) = pre @ trim (toLowerCase '' MILK '') @ suf)
             (if truthy (Some ''L1'')
              then filter (\<lambda>task. listId task = the (Some ''L1'')) (tasks milkDoc)
              else tasks milkDoc) = tasks milkDoc"
    unfolding q sublist_def[symmetric]
    by (simp add: milkDoc_def mkTask_def truthy_def str_eval)
  from searchTasks_result[OF readData_milk_files[of 9000] h(3) refl,
      where a = "mkTask ''T1'' ''Milk'' False 2000" and b = "mkTask ''T2'' ''Buy milk'' False 3000"]
    t
  have m: "searchTasks (env_ok 9000) ''milk'' None milk_files
     = (Inr [mkTask ''T1'' ''Milk'' False 2000, mkTask ''T2'' ''Buy milk'' False 3000],
        milk_files)"
    by blast
  from searchTasks_result[OF readData_milk_files[of 9000] h(2) refl,
      where query = "'' MILK ''", THEN conjunct1]
  obtain r where r:
    "searchTasks (env_ok 9000) '' MILK '' (Some ''L1'') milk_files = (Inr r, milk_files)"
    "mset r = mset (filter (\<lambda>task. \<exists>pre suf.
               toLowerCase (title task) = pre @ trim (toLowerCase '' MILK '') @ suf)
             (if truthy (Some ''L1'')
              then filter (\<lambda>task. listId task = the (Some ''L1'')) (tasks milkDoc)
              else tasks milkDoc))"
    "sorted_wrt (search_order (trim (toLowerCase '' MILK ''))) r"
    by blast
  from r(2) have r2: "mset r = mset (tasks milkDoc)" by (simp only: f)
  from r(3) have r3: "sorted_wrt (search_order ''milk'') r" by (simp only: q)
  from r(1) r2 r3
  have "\<exists>r. searchTasks (env_ok 9000) '' MILK '' (Some ''L1'') milk_files = (Inr r, milk_files) \<and>
        mset r = mset (tasks milkDoc) \<and> sorted_wrt (search_order ''milk'') r"
    by blast
  with m h(1) t readData_milk_files[of 9000] show ?thesis by simp
qed

section \<open>Referential integrity\<close>

lemma stored_simps [simp]:
  "stored P None" "stored P (Some Corrupt)" "stored P (Some (Text j)) = P (revive j)"
  by (simp_all add: stored_def)

lemma stored_saved [simp]:
  "stored P (Some (saved e d)) = P (d\<lparr>metadata := (metadata d)\<lparr>lastUpdated := clock e\<rparr>\<rparr>)"
  by (simp add: saved_def revive_stringify)






lemma ref_integrity_metadata [simp]: "ref_integrity (d\<lparr>metadata := m\<rparr>) = ref_integrity d"
  by (simp add: ref_integrity_def)

lemma ref_integrity_initial [simp]: "ref_integrity (createInitialData e)"
  by (simp add: ref_integrity_def createInitialData_def)
























lemma env_ok_simps [simp]:
  "dataDir_ok (env_ok t)" "readFile_ok (env_ok t)" "readBackup_ok (env_ok t)"
  "copyFile_ok (env_ok t)" "writeFile_ok (env_ok t)" "rename_ok (env_ok t)"
  "clock (env_ok t) = t"
  by (simp_all add: env_ok_def)

lemma no_files_simps [simp]:
  "storageFile no_files = None" "backupFile no_files = None" "tempFile no_files = None"
  by (simp_all add: no_files_def)



lemma createTaskList_ok:
  assumes "readData e s = (Inr d, s1)"
    and "\<forall>list\<in>set (taskLists d). toLowerCase (name list) \<noteq> toLowerCase (new_name dto)"
    and "write_ok e s1"
  shows "fst (createTaskList e uuid dto s)
           = Inr \<lparr> list_id = uuid, name = trim (new_name dto),
                   list_createdAt = clock e, list_updatedAt = clock e \<rparr>"
    and "storageFile (snd (createTaskList e uuid dto s))
           = Some (saved e (d\<lparr>taskLists := taskLists d @
                [\<lparr> list_id = uuid, name = trim (new_name dto),
                    list_createdAt = clock e, list_updatedAt = clock e \<rparr>]\<rparr>))"
proof -
  from assms(2)
  have "find (\<lambda>list. toLowerCase (name list) = toLowerCase (new_name dto)) (taskLists d) = None"
    by (simp add: find_None_iff)
  then show "fst (createTaskList e uuid dto s)
           = Inr \<lparr> list_id = uuid, name = trim (new_name dto),
                   list_createdAt = clock e, list_updatedAt = clock e \<rparr>"
    and "storageFile (snd (createTaskList e uuid dto s))
           = Some (saved e (d\<lparr>taskLists := taskLists d @
                [\<lparr> list_id = uuid, name = trim (new_name dto),
                    list_createdAt = clock e, list_updatedAt = clock e \<rparr>]\<rparr>))"
    using assms(1,3) by (simp_all add: createTaskList_def Let_def writeData_ok)
qed







section \<open>Names of task lists\<close>

lemma readData_two_lists_files:
  "readData (env_ok t) two_lists_files = (Inr twoListsDoc, two_lists_files)"
  by (simp add: readData_def readPrimary_present_ok[of _ "stringify twoListsDoc"]
        two_lists_files_def revive_stringify)

text \<open>
  C1, at the failing input. \<open>createTaskList\<close> and \<open>updateTaskList\<close> compare the name as given
  and store it trimmed. With a list named Work stored, creating a list named Work with a
  leading space succeeds and stores a second list named Work; renaming the list Home to
  \<open>work\<close> with a trailing space succeeds and stores the name \<open>work\<close> beside Work.
\<close>

theorem createTaskList_duplicate_after_trim:
  "fst (createTaskList (env_ok 3000) ''L2'' \<lparr>new_name = '' Work''\<rparr> work_files)
     = Inr \<lparr> list_id = ''L2'', name = ''Work'', list_createdAt = 3000, list_updatedAt = 3000 \<rparr> \<and>
   storageFile (snd (createTaskList (env_ok 3000) ''L2'' \<lparr>new_name = '' Work''\<rparr> work_files))
     = Some (saved (env_ok 3000) (workDoc\<lparr>taskLists :=
         [\<lparr> list_id = ''L1'', name = ''Work'', list_createdAt = 1000, list_updatedAt = 1000 \<rparr>,
          \<lparr> list_id = ''L2'', name = ''Work'', list_createdAt = 3000, list_updatedAt = 3000 \<rparr>]\<rparr>)) \<and>
   fst (updateTaskList (env_ok 4000) ''L2'' \<lparr>upd_name = Some ''work ''\<rparr> two_lists_files)
     = Inr (Some \<lparr> list_id = ''L2'', name = ''work'', list_createdAt = 3000,
                    list_updatedAt = 4000 \<rparr>) \<and>
   storageFile (snd (updateTaskList (env_ok 4000) ''L2'' \<lparr>upd_name = Some ''work ''\<rparr>
                       two_lists_files))
     = Some (saved (env_ok 4000) (twoListsDoc\<lparr>taskLists :=
         [\<lparr> list_id = ''L1'', name = ''Work'', list_createdAt = 1000, list_updatedAt = 1000 \<rparr>,
          \<lparr> list_id = ''L2'', name = ''work'', list_createdAt = 3000, list_updatedAt = 4000 \<rparr>]\<rparr>))"
proof -
  have nd: "\<forall>list\<in>set (taskLists workDoc).
      toLowerCase (name list) \<noteq> toLowerCase (new_name \<lparr>new_name = '' Work''\<rparr>)"
    by (simp add: workDoc_def str_eval)
  have t: "trim '' Work'' = ''Work''" "trim ''work '' = ''work''" by (simp_all add: str_eval)
  have u: "fst (updateTaskList (env_ok 4000) ''L2'' \<lparr>upd_name = Some ''work ''\<rparr> two_lists_files)
     = Inr (Some \<lparr> list_id = ''L2'', name = ''work'', list_createdAt = 3000,
                    list_updatedAt = 4000 \<rparr>)"
    "storageFile (snd (updateTaskList (env_ok 4000) ''L2'' \<lparr>upd_name = Some ''work ''\<rparr>
                       two_lists_files))
     = Some (saved (env_ok 4000) (twoListsDoc\<lparr>taskLists :=
         [\<lparr> list_id = ''L1'', name = ''Work'', list_createdAt = 1000, list_updatedAt = 1000 \<rparr>,
          \<lparr> list_id = ''L2'', name = ''work'', list_createdAt = 3000, list_updatedAt = 4000 \<rparr>]\<rparr>))"
    by (simp_all add: updateTaskList_def readData_two_lists_files truthy_def Let_def
        writeData_ok write_ok_env_ok toLowerCase_def toLowerChar_def t twoListsDoc_def)
  from createTaskList_ok[OF readData_work_files[of 3000] nd write_ok_env_ok, of "''L2''"] t u
  show ?thesis by (simp add: workDoc_def)
qed

end
